theory Spec2Isabelle
  imports Main "HOL-Library.Char_ord" "HOL-Library.List_Lexorder" "HOL-Library.Multiset"
begin

section \<open>Corpus manager of the grizzly fuzzing harness (corpman.py)\<close>

text \<open>
  A shallow embedding of \<^verbatim>\<open>corpman/corpman.py\<close>: the classes \<^verbatim>\<open>Template\<close>,
  \<^verbatim>\<open>TestFile\<close>, \<^verbatim>\<open>TestCase\<close> and \<^verbatim>\<open>CorpusManager\<close>.

  The source is Python 2: a \<^verbatim>\<open>str\<close> is a byte string, which is the type \<open>string\<close> of
  HOL (a list of 8-bit characters). Byte contents of files and text are both \<open>string\<close>.
  Objects are records, methods are functions that take the object and return the updated
  object, and every \<^verbatim>\<open>raise\<close> is a value \<open>Inl e\<close>. A method that can raise after it has
  already changed the object returns the changed object next to the error, since Python
  does not roll back.
\<close>

subsection \<open>Exceptions\<close>

datatype error =
    IOError string
  | OSError string
  | TypeError string
  | IndexError string
  | NotImplementedError string
  | Exception string

subsection \<open>Library functions of Python used by the source\<close>

text \<open>
  The operating-system calls of the source (\<^verbatim>\<open>os.path.isdir\<close>, \<^verbatim>\<open>os.path.isfile\<close>,
  \<^verbatim>\<open>os.walk\<close>, \<^verbatim>\<open>os.path.getsize\<close>, \<^verbatim>\<open>os.path.abspath\<close>, \<^verbatim>\<open>os.path.join\<close> and
  \<^verbatim>\<open>open(...).read()\<close>) are parameters of the model: a record of functions that
  describes the file system at the time of a call. \<^verbatim>\<open>os.walk\<close> yields triples of a
  directory name, its sub-directory names and its file names. \<^verbatim>\<open>getsize\<close> and reading a
  file can raise.
\<close>

record filesystem =
  isdir :: "string \<Rightarrow> bool"
  isfile :: "string \<Rightarrow> bool"
  walk :: "string \<Rightarrow> (string \<times> string list \<times> string list) list"
  getsize :: "string \<Rightarrow> error + nat"
  abspath :: "string \<Rightarrow> string"
  path_join :: "string \<Rightarrow> string \<Rightarrow> string"
  read_file :: "string \<Rightarrow> error + string"

text \<open>\<^verbatim>\<open>s.startswith(".")\<close>\<close>

fun startswith_dot :: "string \<Rightarrow> bool" where
  "startswith_dot [] = False"
| "startswith_dot (c # cs) = (c = CHR ''.'')"

text \<open>\<^verbatim>\<open>s.lstrip(".")\<close>\<close>

definition lstrip_dot :: "string \<Rightarrow> string" where
  "lstrip_dot s = dropWhile (\<lambda>c. c = CHR ''.'') s"

text \<open>\<^verbatim>\<open>s.lower()\<close> on a byte string: the letters A to Z are mapped to a to z.\<close>

definition lower_char :: "char \<Rightarrow> char" where
  "lower_char c =
     (let n = (of_char c :: nat) in if 65 \<le> n \<and> n \<le> 90 then char_of (n + 32) else c)"

definition lower :: "string \<Rightarrow> string" where
  "lower s = map lower_char s"

text \<open>\<^verbatim>\<open>s.rfind(c)\<close>: the index of the last occurrence of a character, \<open>-1\<close> if there is none.\<close>

fun rfind_from :: "char \<Rightarrow> string \<Rightarrow> int \<Rightarrow> int \<Rightarrow> int" where
  "rfind_from c [] i found = found"
| "rfind_from c (x # xs) i found = rfind_from c xs (i + 1) (if x = c then i else found)"

definition rfind :: "char \<Rightarrow> string \<Rightarrow> int" where
  "rfind c s = rfind_from c s 0 (-1)"

text \<open>
  \<^verbatim>\<open>os.path.splitext(p)\<close> (posixpath, through \<^verbatim>\<open>genericpath._splitext\<close>): the
  extension starts at the last dot of the last path component, and leading dots of that
  component do not start an extension.
\<close>

definition splitext :: "string \<Rightarrow> string \<times> string" where
  "splitext p =
     (let sepIndex = rfind CHR ''/'' p;
          dotIndex = rfind CHR ''.'' p
      in if dotIndex > sepIndex
            \<and> list_ex (\<lambda>c. c \<noteq> CHR ''.'')
                 (take (nat (dotIndex - (sepIndex + 1))) (drop (nat (sepIndex + 1)) p))
         then (take (nat dotIndex) p, drop (nat dotIndex) p)
         else (p, []))"

text \<open>\<^verbatim>\<open>"%d" % n\<close> and \<^verbatim>\<open>"%04d" % n\<close> for a number that is not negative.\<close>

definition digit_char :: "nat \<Rightarrow> char" where
  "digit_char d = char_of (48 + d)"

fun str_of_nat :: "nat \<Rightarrow> string" where
  "str_of_nat n = (if n < 10 then [digit_char n] else str_of_nat (n div 10) @ [digit_char (n mod 10)])"

declare str_of_nat.simps [simp del]

definition fmt_04d :: "nat \<Rightarrow> string" where
  "fmt_04d n = replicate (4 - length (str_of_nat n)) CHR ''0'' @ str_of_nat n"

text \<open>\<^verbatim>\<open>base64.standard_b64encode\<close>: three bytes become four characters, padded with \<open>=\<close>.\<close>

definition b64_alphabet :: string where
  "b64_alphabet = ''ABCDEFGHIJKLMNOPQRSTUVWXYZabcdefghijklmnopqrstuvwxyz0123456789+/''"

definition b64_char :: "nat \<Rightarrow> char" where
  "b64_char i = b64_alphabet ! (i mod 64)"

fun b64_groups :: "nat list \<Rightarrow> string" where
  "b64_groups [] = []"
| "b64_groups [a] = [b64_char (a div 4), b64_char ((a mod 4) * 16), CHR ''='', CHR ''='']"
| "b64_groups [a, b] =
     [b64_char (a div 4), b64_char ((a mod 4) * 16 + b div 16),
      b64_char ((b mod 16) * 4), CHR ''='']"
| "b64_groups (a # b # c # rest) =
     [b64_char (a div 4), b64_char ((a mod 4) * 16 + b div 16),
      b64_char ((b mod 16) * 4 + c div 64), b64_char (c mod 64)] @ b64_groups rest"

definition standard_b64encode :: "string \<Rightarrow> string" where
  "standard_b64encode d = b64_groups (map of_char d)"

text \<open>
  \<^verbatim>\<open>random.choice(seq)\<close>: the element at a random index below the length; \<^verbatim>\<open>IndexError\<close>
  on an empty sequence. The random draw is the parameter \<open>rnd\<close>.
\<close>

definition random_choice :: "nat \<Rightarrow> 'a list \<Rightarrow> error + 'a" where
  "random_choice rnd xs =
     (if xs = [] then Inl (IndexError ''list index out of range'')
      else Inr (xs ! (rnd mod length xs)))"

text \<open>\<^verbatim>\<open>xs.pop()\<close>: removes and returns the last element; \<^verbatim>\<open>IndexError\<close> on an empty list.\<close>

definition list_pop :: "'a list \<Rightarrow> error + ('a \<times> 'a list)" where
  "list_pop xs =
     (if xs = [] then Inl (IndexError ''pop from empty list'')
      else Inr (last xs, butlast xs))"

text \<open>
  \<^verbatim>\<open>xs.sort(reverse=True)\<close> on a list of strings: descending in the order of Python's
  byte strings, which is the lexicographic order of the character codes.
\<close>

definition sort_reverse :: "string list \<Rightarrow> string list" where
  "sort_reverse xs = rev (sort xs)"

subsection \<open>class Template\<close>

text \<open>
  The fields \<^verbatim>\<open>_data\<close>, \<^verbatim>\<open>_data_hash\<close>, \<^verbatim>\<open>extension\<close> and \<^verbatim>\<open>file_name\<close>; \<open>None\<close> is
  Python's \<^verbatim>\<open>None\<close>.
\<close>

record template =
  data :: "string option"
  data_hash :: "string option"
  extension :: "string option"
  file_name :: string

text \<open>
  \<^verbatim>\<open>Template.__init__(file_name)\<close>. The argument may be \<^verbatim>\<open>None\<close>. The constructor takes
  no file system: it performs no input or output.
\<close>

definition Template_init :: "string option \<Rightarrow> error + template" where
  "Template_init fname =
     (case fname of
        None \<Rightarrow> Inl (IOError ''File does not exist: None'')
      | Some f \<Rightarrow>
          Inr \<lparr> data = None, data_hash = None,
                extension = (if CHR ''.'' \<in> set f then Some (lstrip_dot (snd (splitext f))) else None),
                file_name = f \<rparr>)"

text \<open>
  \<^verbatim>\<open>Template._load_and_hash_data\<close>. \<open>sha1\<close> stands for \<^verbatim>\<open>hashlib.sha1(d).hexdigest()\<close>.
  The third component of the result lists the files whose contents were read by the call
  (one entry for each executed \<^verbatim>\<open>in_fp.read()\<close>).
\<close>

definition load_and_hash_data ::
  "(string \<Rightarrow> string) \<Rightarrow> filesystem \<Rightarrow> template \<Rightarrow> (error + unit) \<times> template \<times> string list" where
  "load_and_hash_data sha1 fs self =
     (if \<not> isfile fs (file_name self)
      then (Inl (IOError (''File does not exist: '' @ file_name self)), self, [])
      else case read_file fs (file_name self) of
             Inl e \<Rightarrow> (Inl e, self, [])
           | Inr d \<Rightarrow>
               (Inr (), self\<lparr> data := Some d, data_hash := Some (sha1 d) \<rparr>, [file_name self]))"

text \<open>
  \<^verbatim>\<open>Template.get_data\<close> and \<^verbatim>\<open>Template.get_hash\<close> return the field itself
  (\<^verbatim>\<open>return self._data\<close>), so the result is an optional value.
\<close>

definition get_data ::
  "(string \<Rightarrow> string) \<Rightarrow> filesystem \<Rightarrow> template
     \<Rightarrow> (error + string option) \<times> template \<times> string list" where
  "get_data sha1 fs self =
     (if data self = None
      then (case load_and_hash_data sha1 fs self of
              (Inl e, self', rd) \<Rightarrow> (Inl e, self', rd)
            | (Inr _, self', rd) \<Rightarrow> (Inr (data self'), self', rd))
      else (Inr (data self), self, []))"

definition get_hash ::
  "(string \<Rightarrow> string) \<Rightarrow> filesystem \<Rightarrow> template
     \<Rightarrow> (error + string option) \<times> template \<times> string list" where
  "get_hash sha1 fs self =
     (if data_hash self = None
      then (case load_and_hash_data sha1 fs self of
              (Inl e, self', rd) \<Rightarrow> (Inl e, self', rd)
            | (Inr _, self', rd) \<Rightarrow> (Inr (data_hash self'), self', rd))
      else (Inr (data_hash self), self, []))"

text \<open>
  A caller of one \<^verbatim>\<open>Template\<close> object: a sequence of calls of \<^verbatim>\<open>get_data\<close> and
  \<^verbatim>\<open>get_hash\<close>, each with the file system as it is at that moment. The results of the
  calls are collected, and so are the files read.
\<close>

datatype template_call = GetData | GetHash

text \<open>One call, and the sequence of calls.\<close>

definition template_call ::
  "(string \<Rightarrow> string) \<Rightarrow> template_call \<Rightarrow> filesystem \<Rightarrow> template
     \<Rightarrow> (error + string option) \<times> template \<times> string list" where
  "template_call sha1 c fs self =
     (case c of GetData \<Rightarrow> get_data sha1 fs self | GetHash \<Rightarrow> get_hash sha1 fs self)"

fun template_calls ::
  "(string \<Rightarrow> string) \<Rightarrow> (template_call \<times> filesystem) list \<Rightarrow> template
     \<Rightarrow> (template_call \<times> (error + string option)) list \<times> template \<times> string list" where
  "template_calls sha1 [] self = ([], self, [])"
| "template_calls sha1 ((c, fs) # cs) self =
     (case template_call sha1 c fs self of
        (r, self', rd) \<Rightarrow>
          (case template_calls sha1 cs self' of
             (rs, self'', rds) \<Rightarrow> ((c, r) # rs, self'', rd @ rds)))"

subsection \<open>class TestFile\<close>

text \<open>
  The fields \<^verbatim>\<open>file_name\<close>, \<^verbatim>\<open>data\<close> and \<^verbatim>\<open>required\<close>, prefixed here because
  \<^verbatim>\<open>Template\<close> has fields of the same names.
\<close>

record test_file =
  tf_file_name :: string
  tf_data :: string
  tf_required :: bool

text \<open>\<^verbatim>\<open>TestFile.__init__(file_name, data, required=True)\<close>\<close>

definition TestFile_init :: "string \<Rightarrow> string \<Rightarrow> bool \<Rightarrow> test_file" where
  "TestFile_init fname d req = \<lparr> tf_file_name = fname, tf_data = d, tf_required = req \<rparr>"

subsection \<open>class TestCase\<close>

record test_case =
  corpman_name :: "string option"
  landing_page :: string
  template :: "template option"
  test_files :: "test_file list"
  optional_files :: "string list"

text \<open>\<^verbatim>\<open>TestCase.__init__(landing_page, corpman_name, template=None)\<close>\<close>

definition TestCase_init :: "string \<Rightarrow> string option \<Rightarrow> template option \<Rightarrow> test_case" where
  "TestCase_init lp name tmpl =
     \<lparr> corpman_name = name, landing_page = lp, template = tmpl,
       test_files = [], optional_files = [] \<rparr>"

text \<open>
  The argument of \<^verbatim>\<open>add_testfile\<close> is any Python object: a \<^verbatim>\<open>TestFile\<close> or something
  else.
\<close>

datatype pyobj =
    TestFileObj test_file
  | NoneObj
  | StrObj string
  | IntObj int
  | TemplateObj template

text \<open>\<^verbatim>\<open>TestCase.add_testfile\<close>: the check comes before any change of the object.\<close>

definition add_testfile :: "pyobj \<Rightarrow> test_case \<Rightarrow> error + test_case" where
  "add_testfile obj self =
     (case obj of
        TestFileObj tf \<Rightarrow>
          (let self1 = self\<lparr> test_files := test_files self @ [tf] \<rparr>
           in if \<not> tf_required tf
              then Inr (self1\<lparr> optional_files := optional_files self1 @ [tf_file_name tf] \<rparr>)
              else Inr self1)
      | _ \<Rightarrow> Inl (TypeError ''add_testfile() only accepts TestFile objects''))"

text \<open>\<^verbatim>\<open>TestCase.get_optional\<close>: the list if it is not empty, \<^verbatim>\<open>None\<close> otherwise.\<close>

definition get_optional :: "test_case \<Rightarrow> string list option" where
  "get_optional self = (if optional_files self \<noteq> [] then Some (optional_files self) else None)"

subsection \<open>class CorpusManager\<close>

text \<open>
  The fields of the object, and \<open>key\<close>, the class attribute that a subclass overloads.
  \<open>'f\<close> is the type of \<^verbatim>\<open>_fuzzer\<close>, the state a subclass keeps. The counter
  \<^verbatim>\<open>_generated\<close> starts at 0 and is only ever incremented, so it is a natural number;
  \<^verbatim>\<open>_rotate_period\<close> comes from the caller and may be negative.
\<close>

record 'f corpus_manager =
  key :: "string option"
  active_template :: "template option"
  corpus_path :: string
  fuzzer :: "'f option"
  generated :: nat
  is_replay :: bool
  rotate_period :: int
  templates :: "string list"
  use_transition :: bool

text \<open>
  The hooks a subclass implements. \<^verbatim>\<open>_init_fuzzer(aggression)\<close> may set \<^verbatim>\<open>_fuzzer\<close>.
  \<^verbatim>\<open>_generate(test, redirect_page, mime_type)\<close> fills the test case; it sees and may
  change \<^verbatim>\<open>_fuzzer\<close> and the test case, and it may raise. Both are parameters of the
  model.
\<close>

type_synonym ('a, 'f) init_hook = "'a \<Rightarrow> error + 'f option"

type_synonym 'f generate_hook =
  "'f option \<Rightarrow> test_case \<Rightarrow> string \<Rightarrow> string option \<Rightarrow> (error + test_case) \<times> 'f option"

text \<open>The hooks of the base class: \<^verbatim>\<open>_init_fuzzer\<close> does nothing, \<^verbatim>\<open>_generate\<close> raises.\<close>

definition base_init_fuzzer :: "('a, 'f) init_hook" where
  "base_init_fuzzer aggression = Inr None"

definition base_generate :: "'f generate_hook" where
  "base_generate fz test redirect_page mime_type =
     (Inl (NotImplementedError ''_generate must be implemented in the subclass''), fz)"

text \<open>
  \<^verbatim>\<open>CorpusManager._scan_for_templates\<close>. The inner loop over the file names of one
  directory: \<open>ts\<close> is \<^verbatim>\<open>self._templates\<close> so far. An error of \<^verbatim>\<open>getsize\<close> ends the scan
  with the list as it is then.
\<close>

definition ignored_list :: "string list" where
  "ignored_list = [''desktop.ini'', ''thumbs.db'']"

text \<open>\<^verbatim>\<open>if accepted_extensions:\<close> holds for a collection that is neither \<^verbatim>\<open>None\<close> nor empty.\<close>

fun truthy :: "'a list option \<Rightarrow> bool" where
  "truthy None = False"
| "truthy (Some xs) = (xs \<noteq> [])"

fun scan_filenames ::
  "filesystem \<Rightarrow> string list option \<Rightarrow> string \<Rightarrow> string list \<Rightarrow> string list
     \<Rightarrow> error option \<times> string list" where
  "scan_filenames fs accepted_extensions d_name [] ts = (None, ts)"
| "scan_filenames fs accepted_extensions d_name (f_name # rest) ts =
     (if startswith_dot f_name \<or> lower f_name \<in> set ignored_list
      then scan_filenames fs accepted_extensions d_name rest ts
      else if truthy accepted_extensions
              \<and> lower (lstrip_dot (snd (splitext f_name))) \<notin> set (the accepted_extensions)
      then scan_filenames fs accepted_extensions d_name rest ts
      else (let test_file = abspath fs (path_join fs d_name f_name)
            in case getsize fs test_file of
                 Inl e \<Rightarrow> (Some e, ts)
               | Inr sz \<Rightarrow>
                   scan_filenames fs accepted_extensions d_name rest
                     (if sz > 0 then ts @ [test_file] else ts)))"

text \<open>The outer loop over the triples of \<^verbatim>\<open>os.walk\<close>.\<close>

fun scan_walk ::
  "filesystem \<Rightarrow> string list option \<Rightarrow> (string \<times> string list \<times> string list) list \<Rightarrow> string list
     \<Rightarrow> error option \<times> string list" where
  "scan_walk fs accepted_extensions [] ts = (None, ts)"
| "scan_walk fs accepted_extensions ((d_name, _, filenames) # rest) ts =
     (case scan_filenames fs accepted_extensions d_name filenames ts of
        (Some e, ts') \<Rightarrow> (Some e, ts')
      | (None, ts') \<Rightarrow> scan_walk fs accepted_extensions rest ts')"

definition scan_for_templates ::
  "filesystem \<Rightarrow> string list option \<Rightarrow> 'f corpus_manager \<Rightarrow> (error + unit) \<times> 'f corpus_manager" where
  "scan_for_templates fs accepted_extensions self =
     (let self1 = self\<lparr> templates := [] \<rparr>;
          found =
            (if isdir fs (corpus_path self1)
             then scan_walk fs accepted_extensions (walk fs (corpus_path self1)) []
             else if isfile fs (corpus_path self1)
             then (case getsize fs (corpus_path self1) of
                     Inl e \<Rightarrow> (Some e, [])
                   | Inr sz \<Rightarrow>
                       (None, if sz > 0 then [abspath fs (corpus_path self1)] else []))
             else (None, []))
      in case found of
           (Some e, ts) \<Rightarrow> (Inl e, self1\<lparr> templates := ts \<rparr>)
         | (None, ts) \<Rightarrow>
             (let self2 = self1\<lparr> templates := ts \<rparr>
              in if templates self2 = []
                 then (Inl (IOError (''Could not find test case(s) at '' @ corpus_path self2)), self2)
                 else if is_replay self2
                 then (Inr (), self2\<lparr> templates := sort_reverse (templates self2) \<rparr>)
                 else (Inr (), self2)))"

text \<open>
  \<^verbatim>\<open>CorpusManager.__init__(path, accepted_extensions=None, aggression=0.001,
  is_replay=False, rotate=10)\<close>. The class attribute and the hook of the subclass are
  arguments. An exception in the constructor leaves no object.
\<close>

definition CorpusManager_init ::
  "filesystem \<Rightarrow> ('a, 'f) init_hook \<Rightarrow> string option \<Rightarrow> string \<Rightarrow> string list option \<Rightarrow> 'a
     \<Rightarrow> bool \<Rightarrow> int \<Rightarrow> error + 'f corpus_manager" where
  "CorpusManager_init fs init_fuzzer k path accepted_extensions aggression replay rotate_arg =
     (let self = \<lparr> key = k, active_template = None, corpus_path = path, fuzzer = None,
                   generated = 0, is_replay = replay,
                   rotate_period = (if replay then 0 else rotate_arg),
                   templates = [], use_transition = True \<rparr>
      in case init_fuzzer aggression of
           Inl e \<Rightarrow> Inl e
         | Inr fz \<Rightarrow>
             (case scan_for_templates fs accepted_extensions (self\<lparr> fuzzer := fz \<rparr>) of
                (Inl e, _) \<Rightarrow> Inl e
              | (Inr _, self') \<Rightarrow> Inr self'))"

text \<open>\<^verbatim>\<open>CorpusManager.to_data_url(data, mime_type=None)\<close>, a static method.\<close>

definition to_data_url :: "string \<Rightarrow> string option \<Rightarrow> string" where
  "to_data_url d mime_type =
     (let mime_type' = (case mime_type of None \<Rightarrow> ''application/octet-stream'' | Some m \<Rightarrow> m)
      in ''data:'' @ mime_type' @ '';base64,'' @ standard_b64encode d)"

text \<open>
  \<^verbatim>\<open>CorpusManager.generate(mime_type=None)\<close>, in the three parts of the source. First
  the check whether a new active template is to be chosen.
\<close>

definition generate_rotate ::
  "filesystem \<Rightarrow> 'f corpus_manager \<Rightarrow> (error + unit) \<times> 'f corpus_manager" where
  "generate_rotate fs self =
     (if rotate_period self > 0 \<and> int (generated self) mod rotate_period self = 0
      then (case scan_for_templates fs None self of
              (Inl e, self1) \<Rightarrow> (Inl e, self1)
            | (Inr _, self1) \<Rightarrow>
                (if length (templates self1) > 1
                 then (Inr (), self1\<lparr> active_template := None \<rparr>)
                 else (Inr (), self1)))
      else (Inr (), self))"

text \<open>Then the choice of a template; \<open>rnd\<close> is the draw of \<^verbatim>\<open>random.choice\<close>.\<close>

definition generate_choose ::
  "nat \<Rightarrow> 'f corpus_manager \<Rightarrow> (error + unit) \<times> 'f corpus_manager" where
  "generate_choose rnd self =
     (if is_replay self
      then (case list_pop (templates self) of
              Inl e \<Rightarrow> (Inl e, self)
            | Inr (f, ts) \<Rightarrow>
                (let self1 = self\<lparr> templates := ts \<rparr>
                 in case Template_init (Some f) of
                      Inl e \<Rightarrow> (Inl e, self1)
                    | Inr t \<Rightarrow> (Inr (), self1\<lparr> active_template := Some t \<rparr>)))
      else if active_template self = None
      then (case random_choice rnd (templates self) of
              Inl e \<Rightarrow> (Inl e, self)
            | Inr f \<Rightarrow>
                (case Template_init (Some f) of
                   Inl e \<Rightarrow> (Inl e, self)
                 | Inr t \<Rightarrow> (Inr (), self\<lparr> active_template := Some t \<rparr>)))
      else (Inr (), self))"

text \<open>
  Then the test case and the names of the pages: the test case as it is handed to the
  hook, and the redirect page.
\<close>

definition landing_page_name :: "nat \<Rightarrow> string" where
  "landing_page_name n = ''test_page_'' @ fmt_04d n @ ''.html''"

definition generate_test :: "'f corpus_manager \<Rightarrow> error + (test_case \<times> string)" where
  "generate_test self =
     (let test = TestCase_init (landing_page_name (generated self)) (key self) (active_template self)
      in if use_transition self
         then (let redirect_page = ''transition_'' @ fmt_04d (generated self) @ ''.html'';
                   rd_file = TestFile_init redirect_page
                     (''<script>window.location='' @ [CHR 0x27]
                        @ landing_page_name (generated self + 1) @ [CHR 0x27] @ '';</script>'') True
               in case add_testfile (TestFileObj rd_file) test of
                    Inl e \<Rightarrow> Inl e
                  | Inr test' \<Rightarrow> Inr (test', redirect_page))
         else Inr (test, landing_page_name (generated self + 1)))"

definition generate ::
  "filesystem \<Rightarrow> 'f generate_hook \<Rightarrow> nat \<Rightarrow> string option \<Rightarrow> 'f corpus_manager
     \<Rightarrow> (error + test_case) \<times> 'f corpus_manager" where
  "generate fs hook rnd mime_type self =
     (case generate_rotate fs self of
        (Inl e, self1) \<Rightarrow> (Inl e, self1)
      | (Inr _, self1) \<Rightarrow>
          (case generate_choose rnd self1 of
             (Inl e, self2) \<Rightarrow> (Inl e, self2)
           | (Inr _, self2) \<Rightarrow>
               (case generate_test self2 of
                  Inl e \<Rightarrow> (Inl e, self2)
                | Inr (test, redirect_page) \<Rightarrow>
                    (case hook (fuzzer self2) test redirect_page mime_type of
                       (Inl e, fz) \<Rightarrow> (Inl e, self2\<lparr> fuzzer := fz \<rparr>)
                     | (Inr test', fz) \<Rightarrow>
                         (Inr test',
                          self2\<lparr> fuzzer := fz, generated := generated self2 + 1 \<rparr>)))))"

text \<open>\<^verbatim>\<open>get_active_file_name\<close>, \<^verbatim>\<open>landing_page\<close> and \<^verbatim>\<open>size\<close> of the manager.\<close>

definition get_active_file_name :: "'f corpus_manager \<Rightarrow> string option" where
  "get_active_file_name self = map_option file_name (active_template self)"

definition cm_landing_page :: "'f corpus_manager \<Rightarrow> string" where
  "cm_landing_page self = landing_page_name (generated self)"

definition size_cm :: "'f corpus_manager \<Rightarrow> nat" where
  "size_cm self = length (templates self)"

text \<open>
  A caller of one manager: a sequence of calls of \<^verbatim>\<open>generate\<close>, each with the file
  system as it is at that moment, the draw of the random choice and the MIME type. The
  caller goes on after an exception. The result of every call is listed with the manager
  as it is after the call.
\<close>

fun generate_calls ::
  "'f generate_hook \<Rightarrow> (filesystem \<times> nat \<times> string option) list \<Rightarrow> 'f corpus_manager
     \<Rightarrow> ((error + test_case) \<times> 'f corpus_manager) list" where
  "generate_calls hook [] self = []"
| "generate_calls hook ((fs, rnd, mime_type) # cs) self =
     (case generate fs hook rnd mime_type self of
        (r, self') \<Rightarrow> (r, self') # generate_calls hook cs self')"

text \<open>
  A caller of one test case: a sequence of calls of \<^verbatim>\<open>add_testfile\<close>, ended by the
  first exception.
\<close>

fun add_testfiles :: "pyobj list \<Rightarrow> test_case \<Rightarrow> error + test_case" where
  "add_testfiles [] self = Inr self"
| "add_testfiles (obj # objs) self =
     (case add_testfile obj self of
        Inl e \<Rightarrow> Inl e
      | Inr self' \<Rightarrow> add_testfiles objs self')"

subsection \<open>Notions used in the statements\<close>

text \<open>A name is in the list that \<^verbatim>\<open>get_optional\<close> returns; \<^verbatim>\<open>None\<close> holds no name.\<close>

definition in_optional :: "string \<Rightarrow> test_case \<Rightarrow> bool" where
  "in_optional name tc = (case get_optional tc of None \<Rightarrow> False | Some names \<Rightarrow> name \<in> set names)"

text \<open>
  The redirect file of the call with counter \<open>n\<close>, as \<^verbatim>\<open>generate\<close> builds it when the
  transition page is in use.
\<close>

definition redirect_file :: "nat \<Rightarrow> test_file" where
  "redirect_file n =
     \<lparr> tf_file_name = ''transition_'' @ fmt_04d n @ ''.html'',
       tf_data = ''<script>window.location='' @ [CHR 0x27] @ ''test_page_'' @ fmt_04d (n + 1)
                   @ ''.html'' @ [CHR 0x27] @ '';</script>'',
       tf_required = True \<rparr>"

text \<open>
  A hook that only adds files: it keeps the landing page and the files the test case
  already has.
\<close>

definition hook_extends :: "'f generate_hook \<Rightarrow> bool" where
  "hook_extends hook =
     (\<forall>fz t rp mt t' fz'. hook fz t rp mt = (Inr t', fz') \<longrightarrow>
        landing_page t' = landing_page t \<and> (\<exists>more. test_files t' = test_files t @ more))"

text \<open>
  Of the calls a caller has made: the number of calls that returned a test case, and the
  manager after the last call.
\<close>

definition successes :: "((error + test_case) \<times> 'f corpus_manager) list \<Rightarrow> nat" where
  "successes rs = length (filter (\<lambda>(r, s). \<not> isl r) rs)"

definition final_manager ::
  "'f corpus_manager \<Rightarrow> ((error + test_case) \<times> 'f corpus_manager) list \<Rightarrow> 'f corpus_manager" where
  "final_manager self rs = last (self # map snd rs)"

text \<open>
  The scan in the words of the specification: a file name of a directory is kept when it
  is not hidden, not on the ignore list, has an accepted extension when a set of
  extensions is given, and the file is not empty; the candidates of a walk are the
  absolute paths of the kept names, directory by directory.
\<close>

definition kept :: "filesystem \<Rightarrow> string list option \<Rightarrow> string \<Rightarrow> string \<Rightarrow> bool" where
  "kept fs accepted_extensions d_name f_name =
     (\<not> startswith_dot f_name \<and> lower f_name \<notin> set ignored_list
      \<and> (case accepted_extensions of
            None \<Rightarrow> True
          | Some exts \<Rightarrow> exts = [] \<or> lower (lstrip_dot (snd (splitext f_name))) \<in> set exts)
      \<and> (case getsize fs (abspath fs (path_join fs d_name f_name)) of
            Inl e \<Rightarrow> False
          | Inr sz \<Rightarrow> 0 < sz))"

definition walk_candidates ::
  "filesystem \<Rightarrow> string list option \<Rightarrow> (string \<times> string list \<times> string list) list \<Rightarrow> string list" where
  "walk_candidates fs accepted_extensions triples =
     concat (map (\<lambda>(d_name, _, filenames).
                    map (\<lambda>f_name. abspath fs (path_join fs d_name f_name))
                      (filter (kept fs accepted_extensions d_name) filenames))
               triples)"

text \<open>A hook that never raises.\<close>

definition hook_succeeds :: "'f generate_hook \<Rightarrow> bool" where
  "hook_succeeds hook = (\<forall>fz t rp mt. \<exists>t' fz'. hook fz t rp mt = (Inr t', fz'))"

text \<open>
  The cache of a template is consistent: the digest is there exactly when the content
  is, and it is the digest of that content.
\<close>

definition cache_ok :: "(string \<Rightarrow> string) \<Rightarrow> template \<Rightarrow> bool" where
  "cache_ok sha1 t = (data_hash t = map_option sha1 (data t))"

text \<open>What a call returns from a loaded template: the content, or its digest.\<close>

fun cached_answer :: "(string \<Rightarrow> string) \<Rightarrow> template_call \<Rightarrow> string \<Rightarrow> string" where
  "cached_answer sha1 GetData d = d"
| "cached_answer sha1 GetHash d = sha1 d"

subsection \<open>Example inputs\<close>

text \<open>
  A corpus directory \<^verbatim>\<open>/c\<close> with three usable files, a hidden file, a file of the
  ignore list and an empty file. Every file that exists has ten bytes, but the empty one.
\<close>

definition example_files :: "string list" where
  "example_files =
     [''/c/b.txt'', ''/c/a.html'', ''/c/.hidden'', ''/c/Thumbs.db'', ''/c/empty.html'', ''/c/c.HTML'']"

definition example_fs :: filesystem where
  "example_fs =
     \<lparr> isdir = (\<lambda>p. p = ''/c''),
       isfile = (\<lambda>p. p \<in> set example_files),
       walk = (\<lambda>p. if p = ''/c''
                    then [(''/c'', [], [''b.txt'', ''a.html'', ''.hidden'', ''Thumbs.db'',
                                       ''empty.html'', ''c.HTML''])]
                    else []),
       getsize = (\<lambda>p. if p = ''/c/empty.html'' then Inr 0
                       else if p \<in> set example_files then Inr 10
                       else Inl (OSError ''No such file or directory'')),
       abspath = (\<lambda>p. p),
       path_join = (\<lambda>a b. a @ ''/'' @ b),
       read_file = (\<lambda>p. if p = ''/c/empty.html'' then Inr []
                         else if p \<in> set example_files then Inr ''0123456789''
                         else Inl (IOError ''No such file or directory'')) \<rparr>"

text \<open>The same directory with the single file \<^verbatim>\<open>seed.html\<close>.\<close>

definition single_fs :: filesystem where
  "single_fs =
     \<lparr> isdir = (\<lambda>p. p = ''/c''),
       isfile = (\<lambda>p. p = ''/c/seed.html''),
       walk = (\<lambda>p. if p = ''/c'' then [(''/c'', [], [''seed.html''])] else []),
       getsize = (\<lambda>p. if p = ''/c/seed.html'' then Inr 10
                       else Inl (OSError ''No such file or directory'')),
       abspath = (\<lambda>p. p),
       path_join = (\<lambda>a b. a @ ''/'' @ b),
       read_file = (\<lambda>p. if p = ''/c/seed.html'' then Inr ''0123456789''
                         else Inl (IOError ''No such file or directory'')) \<rparr>"

text \<open>A file system on which nothing exists.\<close>

definition empty_fs :: filesystem where
  "empty_fs =
     \<lparr> isdir = (\<lambda>p. False),
       isfile = (\<lambda>p. False),
       walk = (\<lambda>p. []),
       getsize = (\<lambda>p. Inl (OSError ''No such file or directory'')),
       abspath = (\<lambda>p. p),
       path_join = (\<lambda>a b. a @ ''/'' @ b),
       read_file = (\<lambda>p. Inl (IOError ''No such file or directory'')) \<rparr>"

text \<open>
  A hook of a subclass that writes the landing page with a link to the redirect page and
  keeps no state, and a stand-in for the digest.
\<close>

definition example_generate :: "unit generate_hook" where
  "example_generate fz test redirect_page mime_type =
     (case add_testfile
             (TestFileObj (TestFile_init (landing_page test) (''<a href='' @ redirect_page @ ''>'') True))
             test of
        Inl e \<Rightarrow> (Inl e, fz)
      | Inr test' \<Rightarrow> (Inr test', fz))"

definition example_digest :: "string \<Rightarrow> string" where
  "example_digest d = str_of_nat (length d)"

text \<open>
  The manager that the constructor builds over the directory with the single file, with
  a rotation period of 1 and no key.
\<close>

definition single_manager :: "unit corpus_manager" where
  "single_manager =
     \<lparr> key = None, active_template = None, corpus_path = ''/c'', fuzzer = None,
       generated = 0, is_replay = False, rotate_period = 1,
       templates = [''/c/seed.html''], use_transition = True \<rparr>"

text \<open>
  The managers that the constructor builds over the example directory: in replay mode,
  and in fresh mode with the accepted extension \<^verbatim>\<open>html\<close> and the default rotation
  period.
\<close>

definition replay_manager :: "unit corpus_manager" where
  "replay_manager =
     \<lparr> key = None, active_template = None, corpus_path = ''/c'', fuzzer = None,
       generated = 0, is_replay = True, rotate_period = 0,
       templates = [''/c/c.HTML'', ''/c/b.txt'', ''/c/a.html''], use_transition = True \<rparr>"

definition filtered_manager :: "unit corpus_manager" where
  "filtered_manager =
     \<lparr> key = None, active_template = None, corpus_path = ''/c'', fuzzer = None,
       generated = 0, is_replay = False, rotate_period = 10,
       templates = [''/c/a.html'', ''/c/c.HTML''], use_transition = True \<rparr>"

text \<open>
  A manager in fresh mode over the example directory with a rotation period of 1, after
  one call: the template \<^verbatim>\<open>a.html\<close> is active.
\<close>

definition rotating_manager :: "unit corpus_manager" where
  "rotating_manager =
     \<lparr> key = None,
       active_template =
         Some \<lparr> data = None, data_hash = None, extension = Some ''html'',
                file_name = ''/c/a.html'' \<rparr>,
       corpus_path = ''/c'', fuzzer = None,
       generated = 1, is_replay = False, rotate_period = 1,
       templates = [''/c/b.txt'', ''/c/a.html'', ''/c/c.HTML''], use_transition = True \<rparr>"

text \<open>Four calls of \<^verbatim>\<open>generate\<close>, made while nothing exists on the file system.\<close>

definition four_calls :: "(filesystem \<times> nat \<times> string option) list" where
  "four_calls = [(empty_fs, 0, None), (empty_fs, 1, None), (empty_fs, 2, None), (empty_fs, 3, None)]"

text \<open>
  The template object of \<^verbatim>\<open>a.html\<close> as its constructor leaves it, and four calls on
  it: the digest while the file does not exist, the content from the example directory,
  and the digest twice after the file is gone again.
\<close>

definition a_template :: template where
  "a_template =
     \<lparr> data = None, data_hash = None, extension = Some ''html'', file_name = ''/c/a.html'' \<rparr>"

definition a_template_calls :: "(template_call \<times> filesystem) list" where
  "a_template_calls =
     [(GetHash, empty_fs), (GetData, example_fs), (GetHash, single_fs), (GetHash, empty_fs)]"

text \<open>
  The manager with the accepted extension \<^verbatim>\<open>html\<close> after one call: the counter is 1,
  the rotation period 10, and \<^verbatim>\<open>a.html\<close> is active.
\<close>

definition waiting_manager :: "unit corpus_manager" where
  "waiting_manager = filtered_manager\<lparr> generated := 1, active_template := Some a_template \<rparr>"

section \<open>Properties\<close>

subsection \<open>Template: the constructor\<close>

text \<open>A first load of a template whose path is not a file raises and reads nothing.\<close>

lemma first_load_of_missing_file:
  assumes "data t = None" and "data_hash t = None" and "\<not> isfile fs (file_name t)"
  shows "get_data sha1 fs t = (Inl (IOError (''File does not exist: '' @ file_name t)), t, [])
         \<and> get_hash sha1 fs t = (Inl (IOError (''File does not exist: '' @ file_name t)), t, [])"
  using assms by (simp add: get_data_def get_hash_def load_and_hash_data_def)

text \<open>
  Claim C5, as the code has it: the constructor of \<^verbatim>\<open>Template\<close> raises exactly when the
  path is \<^verbatim>\<open>None\<close>, and then it raises \<^verbatim>\<open>IOError\<close>; the constructor takes no file
  system, so nothing is read or looked up before. Every string, the empty string too, is
  accepted: the object is built with nothing loaded. The object of the empty path raises
  \<^verbatim>\<open>IOError\<close> at its first load, by \<^verbatim>\<open>get_data\<close> or by \<^verbatim>\<open>get_hash\<close>, on every
  file system where the empty path is not a file, and nothing is read then.
\<close>

theorem Template_init_fails_only_for_None:
  "((Template_init fname = Inl e) = (fname = None \<and> e = IOError ''File does not exist: None''))
   \<and> (\<forall>f. \<exists>t. Template_init (Some f) = Inr t \<and> file_name t = f
              \<and> data t = None \<and> data_hash t = None)
   \<and> (\<exists>t. Template_init (Some []) = Inr t
          \<and> (\<not> isfile fs [] \<longrightarrow>
                get_data sha1 fs t = (Inl (IOError ''File does not exist: ''), t, [])
                \<and> get_hash sha1 fs t = (Inl (IOError ''File does not exist: ''), t, [])))"
proof (intro conjI)
  show "(Template_init fname = Inl e) = (fname = None \<and> e = IOError ''File does not exist: None'')"
    by (cases fname) (auto simp: Template_init_def)
  show "\<forall>f. \<exists>t. Template_init (Some f) = Inr t \<and> file_name t = f
              \<and> data t = None \<and> data_hash t = None"
    by (simp add: Template_init_def)
  show "\<exists>t. Template_init (Some []) = Inr t
          \<and> (\<not> isfile fs [] \<longrightarrow>
                get_data sha1 fs t = (Inl (IOError ''File does not exist: ''), t, [])
                \<and> get_hash sha1 fs t = (Inl (IOError ''File does not exist: ''), t, []))"
    using first_load_of_missing_file
      [of "\<lparr> data = None, data_hash = None, extension = None, file_name = [] \<rparr>" fs sha1]
    by (simp add: Template_init_def)
qed

text \<open>
  On the file system where nothing exists: \<^verbatim>\<open>None\<close> is refused by the constructor, the
  empty path is accepted and refused by the first load.
\<close>

theorem Template_init_fails_only_for_None_witness:
  "\<not> isfile empty_fs []
   \<and> Template_init None = Inl (IOError ''File does not exist: None'')
   \<and> (\<exists>t. Template_init (Some []) = Inr t
          \<and> get_data example_digest empty_fs t = (Inl (IOError ''File does not exist: ''), t, [])
          \<and> get_hash example_digest empty_fs t = (Inl (IOError ''File does not exist: ''), t, []))"
proof -
  have n: "\<not> isfile empty_fs []" by (simp add: empty_fs_def)
  from Template_init_fails_only_for_None
    [of None "IOError ''File does not exist: None''" empty_fs example_digest]
    n
  show ?thesis by simp
qed

text \<open>
  Claim C5 as it is written fails for the empty path: the construction succeeds.
\<close>

theorem Template_init_empty_path_counterexample:
  "Template_init (Some []) =
     Inr \<lparr> data = None, data_hash = None, extension = None, file_name = [] \<rparr>"
  by (simp add: Template_init_def)

subsection \<open>The data URL\<close>

text \<open>The model of \<^verbatim>\<open>base64.standard_b64encode\<close> on the test vectors of RFC 4648.\<close>

lemma standard_b64encode_rfc4648:
  "standard_b64encode [] = []"
  "standard_b64encode ''f'' = ''Zg==''"
  "standard_b64encode ''fo'' = ''Zm8=''"
  "standard_b64encode ''foo'' = ''Zm9v''"
  "standard_b64encode ''foob'' = ''Zm9vYg==''"
  "standard_b64encode ''fooba'' = ''Zm9vYmE=''"
  "standard_b64encode ''foobar'' = ''Zm9vYmFy''"
  by (simp_all add: standard_b64encode_def b64_char_def b64_alphabet_def)

text \<open>
  Claim C7: \<^verbatim>\<open>to_data_url\<close> is a function of its two arguments alone. With a MIME type
  \<open>m\<close> the result is \<open>data:\<close>, \<open>m\<close>, \<open>;base64,\<close> and the base64 encoding of the bytes; with
  \<^verbatim>\<open>None\<close> the MIME type is \<open>application/octet-stream\<close>. It is total: it raises on no
  byte string and no MIME type.
\<close>

theorem to_data_url_format:
  "to_data_url d (Some m) = ''data:'' @ m @ '';base64,'' @ standard_b64encode d
   \<and> to_data_url d None = ''data:application/octet-stream;base64,'' @ standard_b64encode d"
  by (simp add: to_data_url_def)

subsection \<open>TestCase: adding files\<close>

lemma add_testfile_Inr:
  "add_testfile (TestFileObj tf) tc =
     Inr (tc\<lparr> test_files := test_files tc @ [tf],
              optional_files :=
                optional_files tc @ (if tf_required tf then [] else [tf_file_name tf]) \<rparr>)"
  by (simp add: add_testfile_def Let_def)

lemma add_testfile_Inl_iff:
  "(add_testfile obj tc = Inl e)
     = (e = TypeError ''add_testfile() only accepts TestFile objects''
        \<and> (\<forall>tf. obj \<noteq> TestFileObj tf))"
  by (cases obj) (auto simp: add_testfile_def Let_def)

lemma in_optional_iff: "in_optional name tc = (name \<in> set (optional_files tc))"
  by (simp add: in_optional_def get_optional_def)

lemma add_testfiles_TestFiles:
  "add_testfiles (map TestFileObj tfs) tc =
     Inr (tc\<lparr> test_files := test_files tc @ tfs,
              optional_files :=
                optional_files tc @ map tf_file_name (filter (\<lambda>f. \<not> tf_required f) tfs) \<rparr>)"
  by (induction tfs arbitrary: tc) (simp_all add: add_testfile_Inr)

lemma no_optional_iff_all_required:
  "(filter (\<lambda>f. \<not> tf_required f) tfs = []) = list_all tf_required tfs"
  by (induction tfs) simp_all

text \<open>
  When the files have different names, a name of one of them is among the names of the
  files that are not required exactly when that file is not required.
\<close>

lemma optional_names_distinct:
  assumes "distinct (map tf_file_name tfs)" and "f \<in> set tfs"
  shows "(tf_file_name f \<in> set (map tf_file_name (filter (\<lambda>g. \<not> tf_required g) tfs)))
           = (\<not> tf_required f)"
proof
  assume "tf_file_name f \<in> set (map tf_file_name (filter (\<lambda>g. \<not> tf_required g) tfs))"
  then obtain g where g: "g \<in> set tfs" "\<not> tf_required g" "tf_file_name g = tf_file_name f"
    by auto
  from assms(1) have "inj_on tf_file_name (set tfs)" by (simp add: distinct_map)
  with g(1,3) assms(2) have "g = f" by (auto dest: inj_onD)
  with g(2) show "\<not> tf_required f" by simp
next
  assume "\<not> tf_required f"
  with assms(2) show "tf_file_name f \<in> set (map tf_file_name (filter (\<lambda>g. \<not> tf_required g) tfs))"
    by auto
qed

text \<open>
  Claim C8. \<^verbatim>\<open>add_testfile\<close> raises exactly when its argument is not a \<^verbatim>\<open>TestFile\<close>,
  and then it raises \<^verbatim>\<open>TypeError\<close>. With a \<^verbatim>\<open>TestFile\<close> it appends the file to the
  files of the test case, and the list of \<^verbatim>\<open>get_optional\<close> holds afterwards what it
  held before, and the name of the file when the file is not required. Names are unique in
  a test case (the caller sees to that): for a file whose name is not yet in the list, the
  name is in the list of \<^verbatim>\<open>get_optional\<close> after the call if and only if the file is
  not required. A test case that got files of different names from \<^verbatim>\<open>add_testfile\<close>
  has exactly these files, in the order of the calls, and the name of each of them is in
  the list of \<^verbatim>\<open>get_optional\<close> if and only if that file is not required.
  \<^verbatim>\<open>get_optional\<close> returns \<^verbatim>\<open>None\<close> if and only if all files added are required; on
  a new test case it returns \<^verbatim>\<open>None\<close>.
\<close>

theorem add_testfile_effect:
  "((add_testfile obj tc = Inl e)
      = (e = TypeError ''add_testfile() only accepts TestFile objects''
         \<and> (\<forall>tf. obj \<noteq> TestFileObj tf)))
   \<and> (\<exists>tc'. add_testfile (TestFileObj tf) tc = Inr tc'
          \<and> test_files tc' = test_files tc @ [tf]
          \<and> (\<forall>name. in_optional name tc'
                = (in_optional name tc \<or> (name = tf_file_name tf \<and> \<not> tf_required tf)))
          \<and> (\<not> in_optional (tf_file_name tf) tc \<longrightarrow>
                in_optional (tf_file_name tf) tc' = (\<not> tf_required tf)))
   \<and> (\<exists>tc'. add_testfiles (map TestFileObj tfs) (TestCase_init lp k t) = Inr tc'
          \<and> test_files tc' = tfs
          \<and> (get_optional tc' = None) = list_all tf_required tfs
          \<and> (distinct (map tf_file_name tfs) \<longrightarrow>
                (\<forall>f \<in> set tfs. in_optional (tf_file_name f) tc' = (\<not> tf_required f))))
   \<and> get_optional (TestCase_init lp k t) = None"
proof (intro conjI)
  show "(add_testfile obj tc = Inl e)
      = (e = TypeError ''add_testfile() only accepts TestFile objects''
         \<and> (\<forall>tf. obj \<noteq> TestFileObj tf))"
    by (rule add_testfile_Inl_iff)
  show "\<exists>tc'. add_testfile (TestFileObj tf) tc = Inr tc'
          \<and> test_files tc' = test_files tc @ [tf]
          \<and> (\<forall>name. in_optional name tc'
                = (in_optional name tc \<or> (name = tf_file_name tf \<and> \<not> tf_required tf)))
          \<and> (\<not> in_optional (tf_file_name tf) tc \<longrightarrow>
                in_optional (tf_file_name tf) tc' = (\<not> tf_required tf))"
    by (auto simp: add_testfile_Inr in_optional_iff)
  show "\<exists>tc'. add_testfiles (map TestFileObj tfs) (TestCase_init lp k t) = Inr tc'
          \<and> test_files tc' = tfs
          \<and> (get_optional tc' = None) = list_all tf_required tfs
          \<and> (distinct (map tf_file_name tfs) \<longrightarrow>
                (\<forall>f \<in> set tfs. in_optional (tf_file_name f) tc' = (\<not> tf_required f)))"
    using optional_names_distinct [of tfs]
    by (simp add: add_testfiles_TestFiles TestCase_init_def get_optional_def in_optional_iff
          no_optional_iff_all_required)
  show "get_optional (TestCase_init lp k t) = None"
    by (simp add: get_optional_def TestCase_init_def)
qed

text \<open>
  An object that is no \<^verbatim>\<open>TestFile\<close>, the optional file \<^verbatim>\<open>a.html\<close> and the required
  file \<^verbatim>\<open>b.html\<close>, each on a new test case, and the two files one after the other.
\<close>

theorem add_testfile_effect_witness:
  "add_testfile NoneObj (TestCase_init ''test_page_0000.html'' None None)
     = Inl (TypeError ''add_testfile() only accepts TestFile objects'')
   \<and> \<not> in_optional ''a.html'' (TestCase_init ''test_page_0000.html'' None None)
   \<and> (\<exists>tc'. add_testfile (TestFileObj (TestFile_init ''a.html'' ''x'' False))
                 (TestCase_init ''test_page_0000.html'' None None) = Inr tc'
          \<and> in_optional ''a.html'' tc')
   \<and> (\<exists>tc'. add_testfile (TestFileObj (TestFile_init ''b.html'' ''y'' True))
                 (TestCase_init ''test_page_0000.html'' None None) = Inr tc'
          \<and> \<not> in_optional ''b.html'' tc' \<and> get_optional tc' = None)
   \<and> distinct (map tf_file_name
                 [TestFile_init ''a.html'' ''x'' False, TestFile_init ''b.html'' ''y'' True])
   \<and> (\<exists>tc'. add_testfiles
                 (map TestFileObj
                    [TestFile_init ''a.html'' ''x'' False, TestFile_init ''b.html'' ''y'' True])
                 (TestCase_init ''test_page_0000.html'' None None) = Inr tc'
          \<and> test_files tc'
               = [TestFile_init ''a.html'' ''x'' False, TestFile_init ''b.html'' ''y'' True]
          \<and> in_optional ''a.html'' tc' \<and> \<not> in_optional ''b.html'' tc'
          \<and> get_optional tc' = Some [''a.html''])"
proof -
  let ?tc = "TestCase_init ''test_page_0000.html'' None None"
  let ?a = "TestFile_init ''a.html'' ''x'' False"
  let ?b = "TestFile_init ''b.html'' ''y'' True"
  have n: "\<not> in_optional ''a.html'' ?tc" "\<not> in_optional ''b.html'' ?tc"
    by (simp_all add: in_optional_iff TestCase_init_def)
  have d: "distinct (map tf_file_name [?a, ?b])" by (simp add: TestFile_init_def)
  have 1: "add_testfile NoneObj ?tc = Inl (TypeError ''add_testfile() only accepts TestFile objects'')"
    using add_testfile_effect [of NoneObj ?tc "TypeError ''add_testfile() only accepts TestFile objects''"]
    by simp
  have 2: "\<exists>tc'. add_testfile (TestFileObj ?a) ?tc = Inr tc' \<and> in_optional ''a.html'' tc'"
    using add_testfile_effect [where tf = ?a and tc = ?tc, THEN conjunct2, THEN conjunct1] n
    by (auto simp: TestFile_init_def)
  have 3: "\<exists>tc'. add_testfile (TestFileObj ?b) ?tc = Inr tc'
             \<and> \<not> in_optional ''b.html'' tc' \<and> get_optional tc' = None"
    using add_testfile_effect [where tf = ?b and tc = ?tc, THEN conjunct2, THEN conjunct1] n
    by (auto simp: TestFile_init_def in_optional_iff get_optional_def add_testfile_Inr
          TestCase_init_def)
  have 4: "\<exists>tc'. add_testfiles (map TestFileObj [?a, ?b]) ?tc = Inr tc'
          \<and> test_files tc' = [?a, ?b]
          \<and> in_optional ''a.html'' tc' \<and> \<not> in_optional ''b.html'' tc'
          \<and> get_optional tc' = Some [''a.html'']"
    using add_testfile_effect [where tfs = "[?a, ?b]" and lp = "''test_page_0000.html''"
        and k = None and t = None, THEN conjunct2, THEN conjunct2, THEN conjunct1] d
    by (auto simp: TestFile_init_def in_optional_iff get_optional_def add_testfile_Inr
          TestCase_init_def)
  from 1 n(1) 2 3 d 4 show ?thesis by (intro conjI)
qed

subsection \<open>generate: what each stage leaves unchanged, and the stages of a call\<close>

lemma scan_for_templates_frame:
  "scan_for_templates fs exts self = (r, s) \<Longrightarrow>
     generated s = generated self \<and> use_transition s = use_transition self \<and> key s = key self
     \<and> is_replay s = is_replay self \<and> rotate_period s = rotate_period self
     \<and> corpus_path s = corpus_path self \<and> fuzzer s = fuzzer self
     \<and> active_template s = active_template self"
  by (auto simp: scan_for_templates_def Let_def split: prod.splits option.splits if_splits)

lemma generate_rotate_frame:
  "generate_rotate fs self = (r, s) \<Longrightarrow>
     generated s = generated self \<and> use_transition s = use_transition self \<and> key s = key self
     \<and> is_replay s = is_replay self \<and> rotate_period s = rotate_period self
     \<and> corpus_path s = corpus_path self \<and> fuzzer s = fuzzer self"
  by (auto simp: generate_rotate_def split: prod.splits sum.splits if_splits
           dest!: scan_for_templates_frame)

lemma generate_choose_frame:
  "generate_choose rnd self = (r, s) \<Longrightarrow>
     generated s = generated self \<and> use_transition s = use_transition self \<and> key s = key self
     \<and> is_replay s = is_replay self \<and> rotate_period s = rotate_period self
     \<and> corpus_path s = corpus_path self \<and> fuzzer s = fuzzer self"
  by (auto simp: generate_choose_def Let_def split: prod.splits sum.splits if_splits)

lemma generate_test_transition:
  "use_transition self \<Longrightarrow>
     generate_test self =
       Inr (\<lparr> corpman_name = key self,
               landing_page = ''test_page_'' @ fmt_04d (generated self) @ ''.html'',
               template = active_template self,
               test_files = [redirect_file (generated self)],
               optional_files = [] \<rparr>,
            ''transition_'' @ fmt_04d (generated self) @ ''.html'')"
  by (simp add: generate_test_def Let_def add_testfile_Inr TestCase_init_def TestFile_init_def
        landing_page_name_def redirect_file_def)

lemma generate_test_no_transition:
  "\<not> use_transition self \<Longrightarrow>
     generate_test self =
       Inr (\<lparr> corpman_name = key self,
               landing_page = ''test_page_'' @ fmt_04d (generated self) @ ''.html'',
               template = active_template self,
               test_files = [],
               optional_files = [] \<rparr>,
            ''test_page_'' @ fmt_04d (generated self + 1) @ ''.html'')"
  by (simp add: generate_test_def Let_def TestCase_init_def landing_page_name_def)

lemma generate_test_never_raises: "generate_test self \<noteq> Inl e"
  by (cases "use_transition self") (simp_all add: generate_test_transition generate_test_no_transition)

lemma generate_test_landing_page:
  "generate_test self = Inr (t, rp) \<Longrightarrow> landing_page t = landing_page_name (generated self)"
  by (cases "use_transition self")
     (auto simp: generate_test_transition generate_test_no_transition landing_page_name_def)

lemma generate_Inr_stages:
  assumes "generate fs hook rnd mt self = (Inr t', self')"
  obtains s1 s2 t rp fz where
    "generate_rotate fs self = (Inr (), s1)"
    "generate_choose rnd s1 = (Inr (), s2)"
    "generate_test s2 = Inr (t, rp)"
    "hook (fuzzer s2) t rp mt = (Inr t', fz)"
    "self' = s2\<lparr> fuzzer := fz, generated := generated s2 + 1 \<rparr>"
  using assms
  by (auto simp: generate_def split: prod.splits sum.splits)

lemma generate_Inl_stages:
  assumes "generate fs hook rnd mt self = (Inl e, self')"
  shows "generate_rotate fs self = (Inl e, self')
       \<or> (\<exists>s1. generate_rotate fs self = (Inr (), s1) \<and> generate_choose rnd s1 = (Inl e, self'))
       \<or> (\<exists>s1 s2 t rp fz. generate_rotate fs self = (Inr (), s1)
             \<and> generate_choose rnd s1 = (Inr (), s2) \<and> generate_test s2 = Inr (t, rp)
             \<and> hook (fuzzer s2) t rp mt = (Inl e, fz) \<and> self' = s2\<lparr> fuzzer := fz \<rparr>)"
  using assms
  by (auto simp: generate_def generate_test_never_raises split: prod.splits sum.splits)

subsection \<open>generate: the landing page and the transition page\<close>

text \<open>
  Claim C3: with the transition page in use, a call of \<^verbatim>\<open>generate\<close> with counter \<open>n\<close>
  that returns a test case has handed to the hook a test case with the landing page
  \<open>test_page_%04d.html\<close> of \<open>n\<close> whose only file is the redirect file, and the redirect page
  \<open>transition_%04d.html\<close> of \<open>n\<close>. The redirect file has that name, which differs from
  the landing page, it is required, and its script navigates to the landing page of the
  next call, which is \<open>test_page_%04d.html\<close> of \<open>n + 1\<close>. The returned test case is the one
  the hook leaves; when the hook only adds files, it has this landing page and holds the
  redirect file.
\<close>

theorem generate_transition_page:
  assumes "use_transition self" and "generate fs hook rnd mt self = (Inr t', self')"
  shows "(\<exists>fz t fz'.
            hook fz t (''transition_'' @ fmt_04d (generated self) @ ''.html'') mt = (Inr t', fz')
            \<and> landing_page t = ''test_page_'' @ fmt_04d (generated self) @ ''.html''
            \<and> test_files t = [redirect_file (generated self)])
         \<and> tf_file_name (redirect_file (generated self))
              = ''transition_'' @ fmt_04d (generated self) @ ''.html''
         \<and> tf_file_name (redirect_file (generated self))
              \<noteq> ''test_page_'' @ fmt_04d (generated self) @ ''.html''
         \<and> tf_required (redirect_file (generated self))
         \<and> tf_data (redirect_file (generated self))
              = ''<script>window.location='' @ [CHR 0x27] @ cm_landing_page self' @ [CHR 0x27]
                  @ '';</script>''
         \<and> cm_landing_page self' = ''test_page_'' @ fmt_04d (generated self + 1) @ ''.html''
         \<and> (hook_extends hook \<longrightarrow>
               landing_page t' = ''test_page_'' @ fmt_04d (generated self) @ ''.html''
               \<and> redirect_file (generated self) \<in> set (test_files t'))"
proof -
  from assms(2) obtain s1 s2 t rp fz where
    rot: "generate_rotate fs self = (Inr (), s1)" and
    cho: "generate_choose rnd s1 = (Inr (), s2)" and
    tst: "generate_test s2 = Inr (t, rp)" and
    hk: "hook (fuzzer s2) t rp mt = (Inr t', fz)" and
    fin: "self' = s2\<lparr> fuzzer := fz, generated := generated s2 + 1 \<rparr>"
    by (rule generate_Inr_stages)
  from rot cho have g: "generated s2 = generated self" and u: "use_transition s2 = use_transition self"
    by (auto dest!: generate_rotate_frame generate_choose_frame)
  from tst u assms(1) g have
    t: "landing_page t = ''test_page_'' @ fmt_04d (generated self) @ ''.html''"
       "test_files t = [redirect_file (generated self)]"
       "rp = ''transition_'' @ fmt_04d (generated self) @ ''.html''"
    by (auto simp: generate_test_transition)
  have 1: "\<exists>fz t fz'.
            hook fz t (''transition_'' @ fmt_04d (generated self) @ ''.html'') mt = (Inr t', fz')
            \<and> landing_page t = ''test_page_'' @ fmt_04d (generated self) @ ''.html''
            \<and> test_files t = [redirect_file (generated self)]"
    using hk t by blast
  have 2: "cm_landing_page self' = ''test_page_'' @ fmt_04d (generated self + 1) @ ''.html''"
    using fin g by (simp add: cm_landing_page_def landing_page_name_def)
  have 3: "hook_extends hook \<longrightarrow>
               landing_page t' = ''test_page_'' @ fmt_04d (generated self) @ ''.html''
               \<and> redirect_file (generated self) \<in> set (test_files t')"
  proof
    assume "hook_extends hook"
    with hk have "landing_page t' = landing_page t" and "\<exists>more. test_files t' = test_files t @ more"
      unfolding hook_extends_def by blast+
    with t show "landing_page t' = ''test_page_'' @ fmt_04d (generated self) @ ''.html''
               \<and> redirect_file (generated self) \<in> set (test_files t')"
      by auto
  qed
  show ?thesis
    using 1 2 3 by (simp add: redirect_file_def)
qed

text \<open>
  The scenario of the specification: one file \<^verbatim>\<open>seed.html\<close>, a rotation period of 1
  and the first call.
\<close>

lemma fmt_04d_0: "fmt_04d 0 = ''0000''" by code_simp
lemma fmt_04d_1: "fmt_04d (Suc 0) = ''0001''" by code_simp

lemma hook_extends_example: "hook_extends example_generate"
  by (auto simp: hook_extends_def example_generate_def add_testfile_Inr)

lemma single_manager_generate:
  "\<exists>t s. generate single_fs example_generate 0 None single_manager = (Inr t, s)"
  by (simp add: generate_def generate_rotate_def generate_choose_def generate_test_def
        scan_for_templates_def single_fs_def single_manager_def Let_def ignored_list_def
        lower_def lower_char_def random_choice_def Template_init_def example_generate_def
        add_testfile_def TestCase_init_def TestFile_init_def)

theorem generate_transition_page_witness:
  "use_transition single_manager \<and> hook_extends example_generate
   \<and> (\<exists>t' s'. generate single_fs example_generate 0 None single_manager = (Inr t', s')
         \<and> landing_page t' = ''test_page_0000.html''
         \<and> redirect_file 0 \<in> set (test_files t')
         \<and> tf_file_name (redirect_file 0) = ''transition_0000.html''
         \<and> tf_data (redirect_file 0)
              = ''<script>window.location='' @ [CHR 0x27] @ ''test_page_0001.html'' @ [CHR 0x27]
                  @ '';</script>''
         \<and> cm_landing_page s' = ''test_page_0001.html'')"
proof -
  have u: "use_transition single_manager" and g: "generated single_manager = 0"
    by (simp_all add: single_manager_def)
  from single_manager_generate obtain t' s' where
    gen: "generate single_fs example_generate 0 None single_manager = (Inr t', s')"
    by blast
  show ?thesis
    using generate_transition_page [OF u gen] hook_extends_example u gen
    by (simp add: g fmt_04d_0 fmt_04d_1)
qed

subsection \<open>generate: the generation counter and the errors\<close>

lemma generate_Inr_counter:
  assumes "generate fs hook rnd mt self = (Inr t, self')"
  shows "generated self' = generated self + 1
         \<and> (\<exists>(s :: 'f corpus_manager) t0 rp. generated s = generated self
               \<and> landing_page t0 = landing_page_name (generated self)
               \<and> hook (fuzzer s) t0 rp mt = (Inr t, fuzzer self'))"
proof -
  from assms obtain s1 s2 t0 rp fz where
    rot: "generate_rotate fs self = (Inr (), s1)" and
    cho: "generate_choose rnd s1 = (Inr (), s2)" and
    tst: "generate_test s2 = Inr (t0, rp)" and
    hk: "hook (fuzzer s2) t0 rp mt = (Inr t, fz)" and
    fin: "self' = s2\<lparr> fuzzer := fz, generated := generated s2 + 1 \<rparr>"
    by (rule generate_Inr_stages)
  from rot cho have g: "generated s2 = generated self"
    by (auto dest!: generate_rotate_frame generate_choose_frame)
  from tst g have lp: "landing_page t0 = landing_page_name (generated self)"
    by (auto dest: generate_test_landing_page)
  from fin g have "generated self' = generated self + 1" by simp
  moreover from fin hk have "hook (fuzzer s2) t0 rp mt = (Inr t, fuzzer self')" by simp
  ultimately show ?thesis
    using g lp by (intro conjI exI [of _ s2] exI [of _ t0] exI [of _ rp]) simp_all
qed

lemma generate_Inl_counter:
  assumes "generate fs hook rnd mt self = (Inl e, self')"
  shows "generated self' = generated self
         \<and> (fst (generate_rotate fs self) = Inl e
            \<or> (\<exists>s1. generate_rotate fs self = (Inr (), s1) \<and> fst (generate_choose rnd s1) = Inl e)
            \<or> (\<exists>(s :: 'f corpus_manager) t0 rp fz. generated s = generated self
                  \<and> hook (fuzzer s) t0 rp mt = (Inl e, fz)))"
  using generate_Inl_stages [OF assms]
proof (elim disjE exE conjE)
  assume "generate_rotate fs self = (Inl e, self')"
  then show ?thesis by (auto dest: generate_rotate_frame)
next
  fix s1 assume "generate_rotate fs self = (Inr (), s1)" "generate_choose rnd s1 = (Inl e, self')"
  then show ?thesis by (auto dest!: generate_rotate_frame generate_choose_frame)
next
  fix s1 s2 t rp fz
  assume a: "generate_rotate fs self = (Inr (), s1)" "generate_choose rnd s1 = (Inr (), s2)"
    "generate_test s2 = Inr (t, rp)" "hook (fuzzer s2) t rp mt = (Inl e, fz)"
    "self' = s2\<lparr> fuzzer := fz \<rparr>"
  then have g: "generated s2 = generated self"
    by (auto dest!: generate_rotate_frame generate_choose_frame)
  have "\<exists>(s :: 'f corpus_manager) t0 rp fz. generated s = generated self \<and> hook (fuzzer s) t0 rp mt = (Inl e, fz)"
    using g a(4) by (intro exI [of _ s2] exI [of _ t] exI [of _ rp] exI [of _ fz]) simp
  with a(5) g show ?thesis by simp
qed

lemma generate_error_propagates:
  "(generate_rotate fs self = (Inl e, s1) \<longrightarrow> generate fs hook rnd mt self = (Inl e, s1))
   \<and> (generate_rotate fs self = (Inr (), s1) \<and> generate_choose rnd s1 = (Inl e, s2)
        \<longrightarrow> generate fs hook rnd mt self = (Inl e, s2))
   \<and> (generate_rotate fs self = (Inr (), s1) \<and> generate_choose rnd s1 = (Inr (), s2)
        \<and> generate_test s2 = Inr (t0, rp) \<and> hook (fuzzer s2) t0 rp mt = (Inl e, fz)
        \<longrightarrow> generate fs hook rnd mt self = (Inl e, s2\<lparr> fuzzer := fz \<rparr>))"
  by (simp add: generate_def)

lemma generate_counter_step:
  "generate fs hook rnd mt self = (r, self') \<Longrightarrow>
     generated self' = generated self + (if isl r then 0 else 1)"
  by (cases r) (auto dest: generate_Inl_counter generate_Inr_counter)

lemma final_manager_Cons: "final_manager self ((r, s) # rs) = final_manager s rs"
  by (simp add: final_manager_def)

lemma generate_calls_counter:
  "generated (final_manager self (generate_calls hook calls self))
     = generated self + successes (generate_calls hook calls self)"
proof (induction calls arbitrary: self)
  case Nil
  show ?case by (simp add: final_manager_def successes_def)
next
  case (Cons c calls)
  obtain fs rnd mt where c: "c = (fs, rnd, mt)" by (cases c)
  obtain r s where g: "generate fs hook rnd mt self = (r, s)" by (cases "generate fs hook rnd mt self")
  from g have "generated s = generated self + (if isl r then 0 else 1)"
    by (rule generate_counter_step)
  with Cons.IH [of s] show ?case
    by (simp add: c g final_manager_Cons successes_def)
qed

text \<open>
  Claim C4. A call of \<^verbatim>\<open>generate\<close> that returns a test case leaves the counter one
  higher, and the hook ran, and returned this test case, on a manager whose counter was
  still the old one: the landing page it saw carries the old counter. A call that raises
  leaves the counter as it was, and its error is the very error that the rescan, the choice
  of the template or the hook raised; conversely an error of any of the three is the
  error of the call, unchanged. So over any sequence of calls the counter has grown by the
  number of calls that returned a test case.
\<close>

theorem generate_counter:
  "(generate fs hook rnd mt self = (Inr t, self') \<longrightarrow>
      generated self' = generated self + 1
      \<and> (\<exists>(s :: 'f corpus_manager) t0 rp. generated s = generated self
            \<and> landing_page t0 = landing_page_name (generated self)
            \<and> hook (fuzzer s) t0 rp mt = (Inr t, fuzzer self')))
   \<and> (generate fs hook rnd mt self = (Inl e, self') \<longrightarrow>
        generated self' = generated self
        \<and> (fst (generate_rotate fs self) = Inl e
           \<or> (\<exists>s1. generate_rotate fs self = (Inr (), s1) \<and> fst (generate_choose rnd s1) = Inl e)
           \<or> (\<exists>(s :: 'f corpus_manager) t0 rp fz. generated s = generated self
                 \<and> hook (fuzzer s) t0 rp mt = (Inl e, fz))))
   \<and> (generate_rotate fs self = (Inl e, s1) \<longrightarrow> generate fs hook rnd mt self = (Inl e, s1))
   \<and> (generate_rotate fs self = (Inr (), s1) \<and> generate_choose rnd s1 = (Inl e, s2)
        \<longrightarrow> generate fs hook rnd mt self = (Inl e, s2))
   \<and> (generate_rotate fs self = (Inr (), s1) \<and> generate_choose rnd s1 = (Inr (), s2)
        \<and> generate_test s2 = Inr (t0, rp) \<and> hook (fuzzer s2) t0 rp mt = (Inl e, fz)
        \<longrightarrow> generate fs hook rnd mt self = (Inl e, s2\<lparr> fuzzer := fz \<rparr>))
   \<and> generated (final_manager self (generate_calls hook calls self))
        = generated self + successes (generate_calls hook calls self)"
  using generate_Inr_counter [of fs hook rnd mt self t self']
    generate_Inl_counter [of fs hook rnd mt self e self']
    generate_error_propagates [of fs self e s1 hook rnd mt s2 t0 rp fz]
    generate_calls_counter [of self hook calls]
  by blast

text \<open>
  Three calls on the manager of the single file: with a hook that succeeds, with the hook
  of the base class, which raises, and on a file system where the rescan finds nothing;
  and a call in replay mode on the empty pool, where the choice of the template raises.
\<close>

lemma single_manager_generate_base:
  "generate single_fs base_generate 0 None single_manager
     = (Inl (NotImplementedError ''_generate must be implemented in the subclass''),
        single_manager\<lparr> active_template :=
          Some \<lparr> data = None, data_hash = None, extension = Some ''html'',
                 file_name = ''/c/seed.html'' \<rparr> \<rparr>)"
  by (simp add: generate_def generate_rotate_def generate_choose_def generate_test_def
        scan_for_templates_def single_fs_def single_manager_def Let_def ignored_list_def
        lower_def lower_char_def random_choice_def Template_init_def base_generate_def
        add_testfile_def TestCase_init_def TestFile_init_def splitext_def rfind_def lstrip_dot_def)

lemma single_manager_generate_empty_fs:
  "generate empty_fs example_generate 0 None single_manager
     = (Inl (IOError ''Could not find test case(s) at /c''), single_manager\<lparr> templates := [] \<rparr>)"
  by (simp add: generate_def generate_rotate_def scan_for_templates_def empty_fs_def
        single_manager_def Let_def)

lemma exhausted_manager_generate:
  "generate example_fs example_generate 0 None (replay_manager\<lparr> templates := [] \<rparr>)
     = (Inl (IndexError ''pop from empty list''), replay_manager\<lparr> templates := [] \<rparr>)"
  by (simp add: generate_def generate_rotate_def generate_choose_def list_pop_def
        replay_manager_def)

theorem generate_counter_witness:
  "(\<exists>t s. generate single_fs example_generate 0 None single_manager = (Inr t, s)
       \<and> generated single_manager = 0 \<and> generated s = 1)
   \<and> (\<exists>s. generate single_fs base_generate 0 None single_manager
            = (Inl (NotImplementedError ''_generate must be implemented in the subclass''), s)
         \<and> generated s = 0)
   \<and> (\<exists>s. generate empty_fs example_generate 0 None single_manager
            = (Inl (IOError ''Could not find test case(s) at /c''), s)
         \<and> generated s = 0)
   \<and> (\<exists>s. generate example_fs example_generate 0 None (replay_manager\<lparr> templates := [] \<rparr>)
            = (Inl (IndexError ''pop from empty list''), s)
         \<and> generated (replay_manager\<lparr> templates := [] \<rparr>) = 0 \<and> generated s = 0)"
proof -
  have g0: "generated single_manager = 0" by (simp add: single_manager_def)
  have r0: "generated (replay_manager\<lparr> templates := [] \<rparr>) = 0" by (simp add: replay_manager_def)
  from single_manager_generate obtain t s where
    gen: "generate single_fs example_generate 0 None single_manager = (Inr t, s)"
    by blast
  have 1: "generated s = 1"
    using generate_counter [where fs = single_fs and hook = example_generate and rnd = 0 and mt = None
          and self = single_manager and t = t and self' = s,
        THEN conjunct1]
      gen g0
    by simp
  have 2: "generated (single_manager\<lparr> active_template :=
          Some \<lparr> data = None, data_hash = None, extension = Some ''html'',
                 file_name = ''/c/seed.html'' \<rparr> \<rparr>) = 0"
    using generate_counter [where fs = single_fs and hook = base_generate and rnd = 0 and mt = None
          and self = single_manager
          and e = "NotImplementedError ''_generate must be implemented in the subclass''",
        THEN conjunct2, THEN conjunct1]
      single_manager_generate_base g0
    by simp
  have 3: "generated (single_manager\<lparr> templates := [] \<rparr>) = 0"
    using generate_counter [where fs = empty_fs and hook = example_generate and rnd = 0 and mt = None
          and self = single_manager
          and e = "IOError ''Could not find test case(s) at /c''",
        THEN conjunct2, THEN conjunct1]
      single_manager_generate_empty_fs g0
    by simp
  have 4: "generated (replay_manager\<lparr> templates := [] \<rparr>) = 0"
    using generate_counter [where fs = example_fs and hook = example_generate and rnd = 0
          and mt = None and self = "replay_manager\<lparr> templates := [] \<rparr>"
          and e = "IndexError ''pop from empty list''",
        THEN conjunct2, THEN conjunct1]
      exhausted_manager_generate r0
    by simp
  show ?thesis
    using gen g0 1 2 3 4 single_manager_generate_base single_manager_generate_empty_fs
      exhausted_manager_generate
    by simp
qed

subsection \<open>The constructor, and replay mode without rotation\<close>

lemma replay_manager_init:
  "CorpusManager_init example_fs (base_init_fuzzer :: (unit, unit) init_hook) None ''/c'' None ()
     True 10 = Inr replay_manager"
  by code_simp

lemma filtered_manager_init:
  "CorpusManager_init example_fs (base_init_fuzzer :: (unit, unit) init_hook) None ''/c''
     (Some [''html'']) () False 10 = Inr filtered_manager"
  by code_simp

lemma single_manager_init:
  "CorpusManager_init single_fs (base_init_fuzzer :: (unit, unit) init_hook) None ''/c'' None ()
     False 1 = Inr single_manager"
  by code_simp

lemma CorpusManager_init_fields:
  assumes "CorpusManager_init fs initf k path exts aggr replay rot = Inr m"
  shows "is_replay m = replay \<and> rotate_period m = (if replay then 0 else rot)
         \<and> generated m = 0 \<and> active_template m = None \<and> corpus_path m = path
         \<and> use_transition m \<and> key m = k"
  using assms
  by (auto simp: CorpusManager_init_def Let_def split: sum.splits prod.splits
        dest!: scan_for_templates_frame)

lemma generate_rotate_disabled:
  "rotate_period self \<le> 0 \<Longrightarrow> generate_rotate fs self = (Inr (), self)"
  by (simp add: generate_rotate_def)

lemma generate_frame:
  assumes "generate fs hook rnd mt self = (r, self')"
  shows "rotate_period self' = rotate_period self \<and> is_replay self' = is_replay self
         \<and> corpus_path self' = corpus_path self \<and> use_transition self' = use_transition self
         \<and> key self' = key self"
proof (cases r)
  case (Inl e)
  with assms show ?thesis
    using generate_Inl_stages [of fs hook rnd mt self e self']
    by (auto dest!: generate_rotate_frame generate_choose_frame)
next
  case (Inr t)
  with assms obtain s1 s2 t0 rp fz where
    "generate_rotate fs self = (Inr (), s1)" "generate_choose rnd s1 = (Inr (), s2)"
    "self' = s2\<lparr> fuzzer := fz, generated := generated s2 + 1 \<rparr>"
    by (auto elim: generate_Inr_stages)
  then show ?thesis
    by (auto dest!: generate_rotate_frame generate_choose_frame)
qed

lemma generate_no_rotation_fs:
  "rotate_period self \<le> 0 \<Longrightarrow> generate fs1 hook rnd mt self = generate fs2 hook rnd mt self"
  by (simp add: generate_def generate_rotate_disabled)

lemma generate_calls_no_rotation:
  assumes "rotate_period self = 0" and "is_replay self"
  shows "\<forall>s \<in> set (self # map snd (generate_calls hook calls self)).
            rotate_period s = 0 \<and> is_replay s"
  using assms
proof (induction calls arbitrary: self)
  case Nil
  then show ?case by simp
next
  case (Cons c calls)
  obtain fs rnd mt where c: "c = (fs, rnd, mt)" by (cases c)
  obtain r s where g: "generate fs hook rnd mt self = (r, s)" by (cases "generate fs hook rnd mt self")
  from generate_frame [OF g] Cons.prems have "rotate_period s = 0" "is_replay s" by simp_all
  from Cons.IH [OF this] Cons.prems show ?case by (simp add: c g)
qed

lemma generate_calls_no_rotation_fs:
  assumes "rotate_period self = 0" and "map snd calls1 = map snd calls2"
  shows "generate_calls hook calls1 self = generate_calls hook calls2 self"
  using assms
proof (induction calls1 arbitrary: calls2 self)
  case Nil
  then show ?case by simp
next
  case (Cons c calls1)
  from Cons.prems(2) obtain c2 rest where calls2: "calls2 = c2 # rest" by (cases calls2) auto
  obtain fs1 rnd mt where c: "c = (fs1, rnd, mt)" by (cases c)
  with Cons.prems(2) calls2 obtain fs2 where c2: "c2 = (fs2, rnd, mt)" by (cases c2) auto
  obtain r s where g: "generate fs1 hook rnd mt self = (r, s)" by (cases "generate fs1 hook rnd mt self")
  then have g2: "generate fs2 hook rnd mt self = (r, s)"
    using generate_no_rotation_fs [of self fs1 hook rnd mt fs2] Cons.prems(1) by simp
  from generate_frame [OF g] Cons.prems(1) have "rotate_period s = 0" by simp
  moreover from Cons.prems(2) calls2 have "map snd calls1 = map snd rest" by simp
  ultimately have "generate_calls hook calls1 s = generate_calls hook rest s"
    by (rule Cons.IH)
  then show ?case by (simp add: calls2 c c2 g g2)
qed

text \<open>
  Claim C9. A manager constructed with the replay flag has the rotation period 0, whatever
  the argument \<^verbatim>\<open>rotate\<close> was. The flag and the period stay so over every sequence of
  calls of \<^verbatim>\<open>generate\<close>, and on every manager so reached the first part of
  \<^verbatim>\<open>generate\<close>, which rescans and clears the active template, does nothing on any
  file system. So the calls do not look at the file system at all: two sequences of calls
  with the same random draws and MIME types give the same results and managers, whatever
  the file systems are.
\<close>

theorem replay_never_rescans:
  assumes "CorpusManager_init fs initf k path exts aggr True rot = Inr m"
  shows "rotate_period m = 0 \<and> is_replay m
         \<and> (\<forall>s \<in> set (m # map snd (generate_calls hook calls m)).
               rotate_period s = 0 \<and> is_replay s
               \<and> (\<forall>fs'. generate_rotate fs' s = (Inr (), s)))
         \<and> (map snd calls = map snd calls' \<longrightarrow>
               generate_calls hook calls m = generate_calls hook calls' m)"
proof -
  from CorpusManager_init_fields [OF assms] have m: "rotate_period m = 0" "is_replay m"
    by simp_all
  from generate_calls_no_rotation [OF m, of hook calls]
  have "\<forall>s \<in> set (m # map snd (generate_calls hook calls m)).
               rotate_period s = 0 \<and> is_replay s
               \<and> (\<forall>fs'. generate_rotate fs' s = (Inr (), s))"
    by (auto simp: generate_rotate_disabled)
  moreover have "map snd calls = map snd calls' \<longrightarrow>
               generate_calls hook calls m = generate_calls hook calls' m"
    using generate_calls_no_rotation_fs [OF m(1)] by blast
  ultimately show ?thesis using m by blast
qed

theorem replay_never_rescans_witness:
  "CorpusManager_init example_fs (base_init_fuzzer :: (unit, unit) init_hook) None ''/c'' None ()
     True 10 = Inr replay_manager
   \<and> rotate_period replay_manager = 0
   \<and> generate_rotate example_fs replay_manager = (Inr (), replay_manager)
   \<and> generate_calls example_generate [(example_fs, 0, None), (single_fs, 1, None)] replay_manager
       = generate_calls example_generate [(empty_fs, 0, None), (empty_fs, 1, None)] replay_manager"
  using replay_never_rescans [OF replay_manager_init,
      of example_generate "[(example_fs, 0, None), (single_fs, 1, None)]"
         "[(empty_fs, 0, None), (empty_fs, 1, None)]"]
    replay_manager_init
  by simp

subsection \<open>The scan, and the rescan of generate\<close>

text \<open>
  A scan that raises nothing has added exactly the candidates, in the order of the walk.
\<close>

lemma scan_filenames_ok:
  "scan_filenames fs exts d fnames ts = (None, ts') \<Longrightarrow>
     ts' = ts @ map (\<lambda>f. abspath fs (path_join fs d f)) (filter (kept fs exts d) fnames)"
proof (induction fnames arbitrary: ts)
  case Nil
  then show ?case by simp
next
  case (Cons f fnames)
  show ?case
  proof (cases "startswith_dot f \<or> lower f \<in> set ignored_list")
    case True
    with Cons show ?thesis by (auto simp: kept_def)
  next
    case wanted: False
    show ?thesis
    proof (cases "truthy exts \<and> lower (lstrip_dot (snd (splitext f))) \<notin> set (the exts)")
      case True
      then have "\<not> kept fs exts d f"
        by (cases exts) (auto simp: kept_def)
      with Cons True wanted show ?thesis by auto
    next
      case ext_ok: False
      then have e: "(case exts of None \<Rightarrow> True
          | Some xs \<Rightarrow> xs = [] \<or> lower (lstrip_dot (snd (splitext f))) \<in> set xs)"
        by (cases exts) auto
      show ?thesis
      proof (cases "getsize fs (abspath fs (path_join fs d f))")
        case (Inl err)
        with Cons.prems wanted ext_ok show ?thesis by (simp add: Let_def)
      next
        case (Inr sz)
        with wanted e have k: "kept fs exts d f = (0 < sz)" by (simp add: kept_def)
        from Cons.prems wanted ext_ok Inr
        have "scan_filenames fs exts d fnames
                (if sz > 0 then ts @ [abspath fs (path_join fs d f)] else ts) = (None, ts')"
          by (simp add: Let_def)
        from Cons.IH [OF this] k show ?thesis by simp
      qed
    qed
  qed
qed

lemma scan_walk_ok:
  "scan_walk fs exts triples ts = (None, ts') \<Longrightarrow> ts' = ts @ walk_candidates fs exts triples"
proof (induction triples arbitrary: ts)
  case Nil
  then show ?case by (simp add: walk_candidates_def)
next
  case (Cons tr triples)
  obtain d ds fnames where tr: "tr = (d, ds, fnames)" by (cases tr)
  from Cons.prems tr obtain ts1 where
    1: "scan_filenames fs exts d fnames ts = (None, ts1)" and
    2: "scan_walk fs exts triples ts1 = (None, ts')"
    by (auto split: prod.splits option.splits)
  from scan_filenames_ok [OF 1] Cons.IH [OF 2] show ?case
    by (simp add: tr walk_candidates_def)
qed

lemma scan_for_templates_isdir:
  assumes "isdir fs (corpus_path self)" and "scan_for_templates fs exts self = (Inr (), s)"
  shows "templates s =
           (if is_replay self
            then sort_reverse (walk_candidates fs exts (walk fs (corpus_path self)))
            else walk_candidates fs exts (walk fs (corpus_path self)))"
  using assms
  by (auto simp: scan_for_templates_def Let_def split: prod.splits option.splits if_splits
        dest!: scan_walk_ok)

lemma sort_reverse_Nil: "(sort_reverse xs = []) = (xs = [])"
  by (metis sort_reverse_def length_sort length_0_conv length_rev)

lemma scan_for_templates_nonempty:
  "scan_for_templates fs exts self = (Inr (), s) \<Longrightarrow> templates s \<noteq> []"
  by (auto simp: scan_for_templates_def Let_def sort_reverse_Nil
        split: prod.splits option.splits if_splits sum.splits)

lemma generate_choose_fresh_templates:
  "\<not> is_replay self \<Longrightarrow> generate_choose rnd self = (r, s) \<Longrightarrow> templates s = templates self"
  by (auto simp: generate_choose_def split: sum.splits if_splits)

lemma generate_rotate_boundary:
  assumes "0 < rotate_period self" and "int (generated self) mod rotate_period self = 0"
  shows "generate_rotate fs self =
           (case scan_for_templates fs None self of
              (Inl e, s1) \<Rightarrow> (Inl e, s1)
            | (Inr _, s1) \<Rightarrow>
                (Inr (), if 1 < length (templates s1) then s1\<lparr> active_template := None \<rparr> else s1))"
  using assms by (simp add: generate_rotate_def split: prod.splits sum.splits)

lemma generate_rotate_boundary_templates:
  assumes "0 < rotate_period self" and "int (generated self) mod rotate_period self = 0"
    and "generate_rotate fs self = (r, s1)"
  shows "templates s1 = templates (snd (scan_for_templates fs None self))
         \<and> r = fst (scan_for_templates fs None self)"
  using assms(3) unfolding generate_rotate_boundary [OF assms(1,2)]
  by (auto split: prod.splits sum.splits if_splits)

lemma generate_fresh_templates:
  assumes "\<not> is_replay self" and "generate fs hook rnd mt self = (r, self')"
  shows "templates self' = templates (snd (generate_rotate fs self))
         \<and> (\<forall>t. r = Inr t \<longrightarrow> fst (generate_rotate fs self) = Inr ())"
proof (cases r)
  case (Inl e)
  with assms(2) have "generate fs hook rnd mt self = (Inl e, self')" by simp
  from generate_Inl_stages [OF this]
  have "templates self' = templates (snd (generate_rotate fs self))"
  proof (elim disjE exE conjE)
    assume "generate_rotate fs self = (Inl e, self')"
    then show ?thesis by simp
  next
    fix s1
    assume 1: "generate_rotate fs self = (Inr (), s1)" and 2: "generate_choose rnd s1 = (Inl e, self')"
    from 1 assms(1) have "\<not> is_replay s1" by (auto dest: generate_rotate_frame)
    from generate_choose_fresh_templates [OF this 2] 1 show ?thesis by simp
  next
    fix s1 s2 t rp fz
    assume 1: "generate_rotate fs self = (Inr (), s1)" and 2: "generate_choose rnd s1 = (Inr (), s2)"
      and 3: "self' = s2\<lparr> fuzzer := fz \<rparr>"
    from 1 assms(1) have "\<not> is_replay s1" by (auto dest: generate_rotate_frame)
    from generate_choose_fresh_templates [OF this 2] 1 3 show ?thesis by simp
  qed
  with Inl show ?thesis by simp
next
  case (Inr t)
  with assms(2) obtain s1 s2 fz where
    1: "generate_rotate fs self = (Inr (), s1)" and 2: "generate_choose rnd s1 = (Inr (), s2)" and
    3: "self' = s2\<lparr> fuzzer := fz, generated := generated s2 + 1 \<rparr>"
    by (auto elim: generate_Inr_stages)
  from 1 assms(1) have "\<not> is_replay s1" by (auto dest: generate_rotate_frame)
  from generate_choose_fresh_templates [OF this 2] 1 3 Inr show ?thesis by simp
qed

text \<open>
  Claim C10. In fresh mode, at a rotation boundary, the pool after a call of
  \<^verbatim>\<open>generate\<close> is the pool of a scan without any set of accepted extensions (the
  manager does not even store the set its constructor was given). So when the call
  returns a test case and the corpus path is a directory, every file name of the walk that
  is not hidden and not on the ignore list, and whose file is not empty, is in the pool
  with its absolute path, whatever its extension is.
\<close>

theorem rescan_ignores_extension_filter:
  assumes "\<not> is_replay self" and "0 < rotate_period self"
    and "int (generated self) mod rotate_period self = 0"
    and "generate fs hook rnd mt self = (r, self')"
  shows "templates self' = templates (snd (scan_for_templates fs None self))
         \<and> (r = Inr t \<and> isdir fs (corpus_path self)
              \<and> (d, ds, fnames) \<in> set (walk fs (corpus_path self)) \<and> f \<in> set fnames
              \<and> \<not> startswith_dot f \<and> lower f \<notin> set ignored_list
              \<and> getsize fs (abspath fs (path_join fs d f)) = Inr sz \<and> 0 < sz
            \<longrightarrow> abspath fs (path_join fs d f) \<in> set (templates self'))"
proof -
  obtain r1 s1 where rot: "generate_rotate fs self = (r1, s1)"
    by (cases "generate_rotate fs self")
  from generate_rotate_boundary_templates [OF assms(2,3) rot]
  have s1: "templates s1 = templates (snd (scan_for_templates fs None self))"
    and r1: "r1 = fst (scan_for_templates fs None self)" by simp_all
  from generate_fresh_templates [OF assms(1,4)] rot
  have t': "templates self' = templates s1" and ok: "\<forall>t. r = Inr t \<longrightarrow> r1 = Inr ()"
    by simp_all
  have mem: "abspath fs (path_join fs d f) \<in> set (templates self')"
    if "r = Inr t" "isdir fs (corpus_path self)"
      "(d, ds, fnames) \<in> set (walk fs (corpus_path self))" "f \<in> set fnames"
      "\<not> startswith_dot f" "lower f \<notin> set ignored_list"
      "getsize fs (abspath fs (path_join fs d f)) = Inr sz" "0 < sz"
  proof -
    from that(1) ok r1 have "fst (scan_for_templates fs None self) = Inr ()" by simp
    then have "scan_for_templates fs None self = (Inr (), snd (scan_for_templates fs None self))"
      by (cases "scan_for_templates fs None self") simp
    from scan_for_templates_isdir [OF that(2) this] assms(1)
    have "templates (snd (scan_for_templates fs None self))
            = walk_candidates fs None (walk fs (corpus_path self))" by simp
    moreover have "kept fs None d f" using that by (simp add: kept_def)
    then have "abspath fs (path_join fs d f)
                 \<in> set (walk_candidates fs None (walk fs (corpus_path self)))"
      using that(3,4) by (force simp: walk_candidates_def)
    ultimately show ?thesis using t' s1 by simp
  qed
  show ?thesis
  proof (intro conjI impI)
    show "templates self' = templates (snd (scan_for_templates fs None self))"
      using t' s1 by simp
  next
    assume "r = Inr t \<and> isdir fs (corpus_path self)
              \<and> (d, ds, fnames) \<in> set (walk fs (corpus_path self)) \<and> f \<in> set fnames
              \<and> \<not> startswith_dot f \<and> lower f \<notin> set ignored_list
              \<and> getsize fs (abspath fs (path_join fs d f)) = Inr sz \<and> 0 < sz"
    then show "abspath fs (path_join fs d f) \<in> set (templates self')"
      using mem by blast
  qed
qed

text \<open>
  The manager constructed with the accepted extension \<^verbatim>\<open>html\<close> does not hold
  \<^verbatim>\<open>b.txt\<close>; after the first call of \<^verbatim>\<open>generate\<close> it does.
\<close>

lemma filtered_manager_generate:
  "\<exists>t s. generate example_fs example_generate 0 None filtered_manager = (Inr t, s)"
  by (simp add: generate_def generate_rotate_def generate_choose_def generate_test_def
        scan_for_templates_def example_fs_def example_files_def filtered_manager_def Let_def
        ignored_list_def lower_def lower_char_def random_choice_def Template_init_def
        example_generate_def add_testfile_def TestCase_init_def TestFile_init_def)

theorem rescan_ignores_extension_filter_witness:
  "CorpusManager_init example_fs (base_init_fuzzer :: (unit, unit) init_hook) None ''/c''
     (Some [''html'']) () False 10 = Inr filtered_manager
   \<and> ''/c/b.txt'' \<notin> set (templates filtered_manager)
   \<and> (\<exists>t s. generate example_fs example_generate 0 None filtered_manager = (Inr t, s)
         \<and> ''/c/b.txt'' \<in> set (templates s))"
proof -
  from filtered_manager_generate obtain t s where
    gen: "generate example_fs example_generate 0 None filtered_manager = (Inr t, s)" by blast
  have a: "\<not> is_replay filtered_manager" "0 < rotate_period filtered_manager"
    "int (generated filtered_manager) mod rotate_period filtered_manager = 0"
    by (simp_all add: filtered_manager_def)
  have "''/c/b.txt'' \<in> set (templates s)"
    using rescan_ignores_extension_filter [where t = t and d = "''/c''" and ds = "[]"
          and fnames = "[''b.txt'', ''a.html'', ''.hidden'', ''Thumbs.db'', ''empty.html'',
                        ''c.HTML'']"
          and f = "''b.txt''" and sz = 10,
        OF a gen, THEN conjunct2]
    by (simp add: example_fs_def example_files_def filtered_manager_def ignored_list_def
          lower_def lower_char_def)
  with gen filtered_manager_init show ?thesis
    by (simp add: filtered_manager_def)
qed

subsection \<open>generate in fresh mode: the rescan and the active template\<close>

text \<open>The example manager with an active template is reached by one call.\<close>

lemma rotating_manager_reached:
  "CorpusManager_init example_fs (base_init_fuzzer :: (unit, unit) init_hook) None ''/c'' None ()
     False 1 = Inr (rotating_manager\<lparr> active_template := None, generated := 0 \<rparr>)
   \<and> snd (generate example_fs example_generate 1 None
            (rotating_manager\<lparr> active_template := None, generated := 0 \<rparr>)) = rotating_manager"
  by code_simp

lemma generate_rotate_not_boundary:
  "int (generated self) mod rotate_period self \<noteq> 0 \<Longrightarrow> generate_rotate fs self = (Inr (), self)"
  by (simp add: generate_rotate_def)

lemma generate_choose_fresh_active:
  assumes "\<not> is_replay self" and "generate_choose rnd self = (r, s)"
  shows "(active_template self \<noteq> None \<longrightarrow> r = Inr () \<and> s = self)
         \<and> (active_template self = None \<and> templates self \<noteq> [] \<longrightarrow>
               r = Inr ()
               \<and> (\<exists>tm. Template_init (Some (templates self ! (rnd mod length (templates self))))
                           = Inr tm
                        \<and> s = self\<lparr> active_template := Some tm \<rparr>))"
  using assms
  by (auto simp: generate_choose_def random_choice_def Template_init_def split: sum.splits)

lemma generate_fresh_active:
  assumes "\<not> is_replay self" and "generate_rotate fs self = (Inr (), s1)"
    and "generate fs hook rnd mt self = (r, self')"
  shows "(active_template s1 \<noteq> None \<longrightarrow> active_template self' = active_template s1)
         \<and> (active_template s1 = None \<and> templates s1 \<noteq> [] \<longrightarrow>
               (\<exists>tm. Template_init (Some (templates s1 ! (rnd mod length (templates s1)))) = Inr tm
                      \<and> active_template self' = Some tm))"
proof -
  from assms(1,2) have nr: "\<not> is_replay s1" by (auto dest: generate_rotate_frame)
  obtain r2 s2 where cho: "generate_choose rnd s1 = (r2, s2)" by (cases "generate_choose rnd s1")
  from generate_choose_fresh_active [OF nr cho]
  have c: "(active_template s1 \<noteq> None \<longrightarrow> r2 = Inr () \<and> s2 = s1)"
    "(active_template s1 = None \<and> templates s1 \<noteq> [] \<longrightarrow>
               r2 = Inr ()
               \<and> (\<exists>tm. Template_init (Some (templates s1 ! (rnd mod length (templates s1)))) = Inr tm
                        \<and> s2 = s1\<lparr> active_template := Some tm \<rparr>))"
    by simp_all
  have a: "active_template self' = active_template s2" if "r2 = Inr ()"
    using assms(2,3) cho that
    by (auto simp: generate_def split: prod.splits sum.splits)
  show ?thesis
  proof (intro conjI impI)
    assume "active_template s1 \<noteq> None"
    with c(1) have "r2 = Inr ()" "s2 = s1" by simp_all
    with a show "active_template self' = active_template s1" by simp
  next
    assume "active_template s1 = None \<and> templates s1 \<noteq> []"
    with c(2) obtain tm where "r2 = Inr ()"
      and tm: "Template_init (Some (templates s1 ! (rnd mod length (templates s1)))) = Inr tm"
      and "s2 = s1\<lparr> active_template := Some tm \<rparr>"
      by blast
    with a have "active_template self' = Some tm" by simp
    with tm show "\<exists>tm. Template_init (Some (templates s1 ! (rnd mod length (templates s1)))) = Inr tm
                      \<and> active_template self' = Some tm"
      by blast
  qed
qed

text \<open>
  Claim C2, for a call of \<^verbatim>\<open>generate\<close> in fresh mode with a rotation period above 0;
  \<open>s1\<close> is the manager after the first part of \<^verbatim>\<open>generate\<close>, the rescan and the
  clearing, and \<open>self'\<close> the manager after the call.
  When the counter is not a multiple of the period, the first part changes nothing and the
  pool after the call is the pool before it. When the counter is a multiple of the period,
  the pool is scanned anew: the first part raises what the scan raises, and the pool, also
  after the call, is the pool of the scan. An active template is cleared by the first
  part if and only if the counter is a multiple of the period, the scan raised nothing and
  the scanned pool has more than one candidate; with a pool of exactly one candidate the
  active template is as before. After the call, an active template that was not cleared is
  still the active one, and a cleared one is replaced by the template of the random draw
  from the scanned pool.
\<close>

theorem rotation_rescan_and_clear:
  assumes "\<not> is_replay self" and "0 < rotate_period self"
    and "generate_rotate fs self = (r1, s1)" and "generate fs hook rnd mt self = (r, self')"
  shows "(int (generated self) mod rotate_period self \<noteq> 0 \<longrightarrow>
            r1 = Inr () \<and> s1 = self \<and> templates self' = templates self)
         \<and> (int (generated self) mod rotate_period self = 0 \<longrightarrow>
               r1 = fst (scan_for_templates fs None self)
               \<and> templates s1 = templates (snd (scan_for_templates fs None self))
               \<and> templates self' = templates s1)
         \<and> (active_template self \<noteq> None \<longrightarrow>
               (active_template s1 = None)
                 = (int (generated self) mod rotate_period self = 0 \<and> r1 = Inr ()
                    \<and> 1 < length (templates s1)))
         \<and> (length (templates s1) = 1 \<longrightarrow> active_template s1 = active_template self)
         \<and> (r1 = Inr () \<and> active_template s1 \<noteq> None \<longrightarrow>
               active_template self' = active_template s1)
         \<and> (r1 = Inr () \<and> active_template s1 = None \<and> templates s1 \<noteq> [] \<longrightarrow>
               (\<exists>tm. Template_init (Some (templates s1 ! (rnd mod length (templates s1)))) = Inr tm
                      \<and> active_template self' = Some tm))"
proof -
  from generate_fresh_templates [OF assms(1,4)] assms(3)
  have t': "templates self' = templates s1" by simp
  have A: "r1 = Inr () \<and> s1 = self \<and> templates self' = templates self"
    if "int (generated self) mod rotate_period self \<noteq> 0"
    using generate_rotate_not_boundary [OF that, of fs] assms(3) t' by simp
  have B: "r1 = fst (scan_for_templates fs None self)
           \<and> templates s1 = templates (snd (scan_for_templates fs None self))
           \<and> templates self' = templates s1"
    if "int (generated self) mod rotate_period self = 0"
    using generate_rotate_boundary_templates [OF assms(2) that assms(3)] t' by simp
  have C: "(active_template s1 = None)
             = (int (generated self) mod rotate_period self = 0 \<and> r1 = Inr ()
                \<and> 1 < length (templates s1))"
    if "active_template self \<noteq> None"
  proof (cases "int (generated self) mod rotate_period self = 0")
    case False
    with A that show ?thesis by simp
  next
    case True
    from assms(3) that True show ?thesis
      unfolding generate_rotate_boundary [OF assms(2) True]
      by (auto split: prod.splits sum.splits if_splits dest: scan_for_templates_frame)
  qed
  have D: "active_template s1 = active_template self" if "length (templates s1) = 1"
  proof (cases "int (generated self) mod rotate_period self = 0")
    case False
    with A show ?thesis by simp
  next
    case True
    from assms(3) that True show ?thesis
      unfolding generate_rotate_boundary [OF assms(2) True]
      by (auto split: prod.splits sum.splits if_splits dest: scan_for_templates_frame)
  qed
  have E: "(active_template s1 \<noteq> None \<longrightarrow> active_template self' = active_template s1)
         \<and> (active_template s1 = None \<and> templates s1 \<noteq> [] \<longrightarrow>
               (\<exists>tm. Template_init (Some (templates s1 ! (rnd mod length (templates s1)))) = Inr tm
                      \<and> active_template self' = Some tm))"
    if "r1 = Inr ()"
    using generate_fresh_active [OF assms(1) _ assms(4), of s1 ] assms(3) that by simp
  from A B C D E show ?thesis by blast
qed


text \<open>
  The manager with the active template \<^verbatim>\<open>a.html\<close> at a rotation boundary: over the
  directory of three candidates the template is cleared and the draw makes
  \<^verbatim>\<open>c.HTML\<close> the active one; over the directory of one candidate the pool becomes
  that candidate and \<^verbatim>\<open>a.html\<close> stays active. Away from a boundary (counter 1,
  period 10) the pool of the manager stays, whatever the directory holds.
\<close>

lemma rotating_manager_rotate_example:
  "generate_rotate example_fs rotating_manager
     = (Inr (), rotating_manager\<lparr> active_template := None \<rparr>)"
  by code_simp

lemma rotating_manager_rotate_single:
  "generate_rotate single_fs rotating_manager
     = (Inr (), rotating_manager\<lparr> templates := [''/c/seed.html''] \<rparr>)"
  by code_simp

lemma rotating_manager_generate:
  "\<exists>t s. generate example_fs example_generate 2 None rotating_manager = (Inr t, s)"
  by (simp add: generate_def generate_rotate_def generate_choose_def generate_test_def
        scan_for_templates_def example_fs_def example_files_def rotating_manager_def Let_def
        ignored_list_def lower_def lower_char_def random_choice_def Template_init_def
        example_generate_def add_testfile_def TestCase_init_def TestFile_init_def)

lemma rotating_manager_generate_single:
  "\<exists>t s. generate single_fs example_generate 2 None rotating_manager = (Inr t, s)"
  by (simp add: generate_def generate_rotate_def generate_choose_def generate_test_def
        scan_for_templates_def single_fs_def rotating_manager_def Let_def
        ignored_list_def lower_def lower_char_def random_choice_def Template_init_def
        example_generate_def add_testfile_def TestCase_init_def TestFile_init_def)

lemma waiting_manager_rotate:
  "generate_rotate single_fs waiting_manager = (Inr (), waiting_manager)"
  by code_simp

lemma waiting_manager_generate:
  "\<exists>t s. generate single_fs example_generate 2 None waiting_manager = (Inr t, s)"
  by (simp add: generate_def generate_rotate_def generate_choose_def generate_test_def
        waiting_manager_def filtered_manager_def a_template_def Let_def
        example_generate_def add_testfile_def TestCase_init_def TestFile_init_def)

theorem rotation_rescan_and_clear_witness:
  "\<not> is_replay rotating_manager \<and> 0 < rotate_period rotating_manager
   \<and> get_active_file_name rotating_manager = Some ''/c/a.html''
   \<and> generate_rotate example_fs rotating_manager
        = (Inr (), rotating_manager\<lparr> active_template := None \<rparr>)
   \<and> (\<exists>t s. generate example_fs example_generate 2 None rotating_manager = (Inr t, s)
         \<and> templates s = [''/c/b.txt'', ''/c/a.html'', ''/c/c.HTML'']
         \<and> get_active_file_name s = Some ''/c/c.HTML'')
   \<and> generate_rotate single_fs rotating_manager
        = (Inr (), rotating_manager\<lparr> templates := [''/c/seed.html''] \<rparr>)
   \<and> (\<exists>t s. generate single_fs example_generate 2 None rotating_manager = (Inr t, s)
         \<and> templates s = [''/c/seed.html'']
         \<and> get_active_file_name s = Some ''/c/a.html'')
   \<and> \<not> is_replay waiting_manager \<and> 0 < rotate_period waiting_manager
   \<and> int (generated waiting_manager) mod rotate_period waiting_manager \<noteq> 0
   \<and> generate_rotate single_fs waiting_manager = (Inr (), waiting_manager)
   \<and> (\<exists>t s. generate single_fs example_generate 2 None waiting_manager = (Inr t, s)
         \<and> templates s = templates waiting_manager
         \<and> get_active_file_name s = Some ''/c/a.html'')"
proof -
  have a: "\<not> is_replay rotating_manager" "0 < rotate_period rotating_manager"
    by (simp_all add: rotating_manager_def)
  from rotating_manager_generate obtain t s where
    gen: "generate example_fs example_generate 2 None rotating_manager = (Inr t, s)" by blast
  from rotating_manager_generate_single obtain t' s' where
    gen': "generate single_fs example_generate 2 None rotating_manager = (Inr t', s')" by blast
  have 1: "templates s = [''/c/b.txt'', ''/c/a.html'', ''/c/c.HTML'']
           \<and> get_active_file_name s = Some ''/c/c.HTML''"
    using rotation_rescan_and_clear [OF a rotating_manager_rotate_example gen]
    by (auto simp: rotating_manager_def get_active_file_name_def Template_init_def)
  have 2: "templates s' = [''/c/seed.html''] \<and> get_active_file_name s' = Some ''/c/a.html''"
    using rotation_rescan_and_clear [OF a rotating_manager_rotate_single gen']
    by (auto simp: rotating_manager_def get_active_file_name_def)
  have b: "\<not> is_replay waiting_manager" "0 < rotate_period waiting_manager"
    and nb: "int (generated waiting_manager) mod rotate_period waiting_manager \<noteq> 0"
    by (simp_all add: waiting_manager_def filtered_manager_def)
  from waiting_manager_generate obtain t'' s'' where
    gen'': "generate single_fs example_generate 2 None waiting_manager = (Inr t'', s'')" by blast
  have 3: "templates s'' = templates waiting_manager
           \<and> get_active_file_name s'' = Some ''/c/a.html''"
    using rotation_rescan_and_clear [OF b waiting_manager_rotate gen''] nb
    by (auto simp: waiting_manager_def a_template_def get_active_file_name_def)
  have r: "get_active_file_name rotating_manager = Some ''/c/a.html''"
    by (simp add: get_active_file_name_def rotating_manager_def)
  from 1 gen have e1: "\<exists>t s. generate example_fs example_generate 2 None rotating_manager = (Inr t, s)
         \<and> templates s = [''/c/b.txt'', ''/c/a.html'', ''/c/c.HTML'']
         \<and> get_active_file_name s = Some ''/c/c.HTML''" by blast
  from 2 gen' have e2: "\<exists>t s. generate single_fs example_generate 2 None rotating_manager = (Inr t, s)
         \<and> templates s = [''/c/seed.html'']
         \<and> get_active_file_name s = Some ''/c/a.html''" by blast
  from 3 gen'' have e3: "\<exists>t s. generate single_fs example_generate 2 None waiting_manager = (Inr t, s)
         \<and> templates s = templates waiting_manager
         \<and> get_active_file_name s = Some ''/c/a.html''" by blast
  from a r rotating_manager_rotate_example e1 rotating_manager_rotate_single e2
    b nb waiting_manager_rotate e3
  show ?thesis by (intro conjI)
qed

subsection \<open>generate in replay mode: the order of the templates\<close>

lemma rev_sort_reverse: "rev (sort_reverse xs) = sort (sort_reverse xs)"
proof -
  have "sort (rev (sort xs)) = sort xs"
    by (rule properties_for_sort) simp_all
  then show ?thesis by (simp add: sort_reverse_def)
qed

lemma scan_for_templates_replay_sorted:
  assumes "is_replay self" and "scan_for_templates fs exts self = (Inr (), s)"
  shows "rev (templates s) = sort (templates s)"
  using assms
  by (auto simp: scan_for_templates_def Let_def rev_sort_reverse
        split: prod.splits option.splits if_splits sum.splits)

lemma CorpusManager_init_scan:
  assumes "CorpusManager_init fs initf k path exts aggr replay rot = Inr m"
  shows "\<exists>fz. scan_for_templates fs exts
                \<lparr> key = k, active_template = None, corpus_path = path, fuzzer = fz,
                  generated = 0, is_replay = replay,
                  rotate_period = (if replay then 0 else rot),
                  templates = [], use_transition = True \<rparr> = (Inr (), m)"
  using assms
  by (auto simp: CorpusManager_init_def Let_def split: sum.splits prod.splits)

lemma CorpusManager_init_replay_sorted:
  assumes "CorpusManager_init fs initf k path exts aggr True rot = Inr m"
  shows "rev (templates m) = sort (templates m)"
proof -
  from CorpusManager_init_scan [OF assms] obtain fz where
    "scan_for_templates fs exts
       \<lparr> key = k, active_template = None, corpus_path = path, fuzzer = fz,
         generated = 0, is_replay = True, rotate_period = (if True then 0 else rot),
         templates = [], use_transition = True \<rparr> = (Inr (), m)"
    by blast
  from scan_for_templates_replay_sorted [OF _ this] show ?thesis by simp
qed

lemma CorpusManager_init_isdir:
  assumes "CorpusManager_init fs initf k path exts aggr replay rot = Inr m" and "isdir fs path"
  shows "templates m = (if replay then sort_reverse (walk_candidates fs exts (walk fs path))
                        else walk_candidates fs exts (walk fs path))"
proof -
  from CorpusManager_init_scan [OF assms(1)] obtain fz where
    "scan_for_templates fs exts
       \<lparr> key = k, active_template = None, corpus_path = path, fuzzer = fz,
         generated = 0, is_replay = replay, rotate_period = (if replay then 0 else rot),
         templates = [], use_transition = True \<rparr> = (Inr (), m)"
    by blast
  from scan_for_templates_isdir [OF _ this] assms(2) show ?thesis by simp
qed

lemma generate_choose_replay:
  assumes "is_replay self"
  shows "generate_choose rnd self =
           (if templates self = [] then (Inl (IndexError ''pop from empty list''), self)
            else (Inr (), self\<lparr> templates := butlast (templates self),
                     active_template :=
                       Some \<lparr> data = None, data_hash = None,
                              extension = (if CHR ''.'' \<in> set (last (templates self))
                                           then Some (lstrip_dot (snd (splitext (last (templates self)))))
                                           else None),
                              file_name = last (templates self) \<rparr> \<rparr>))"
  using assms by (simp add: generate_choose_def list_pop_def Template_init_def Let_def)

lemma generate_replay_empty:
  assumes "is_replay self" and "rotate_period self = 0" and "templates self = []"
  shows "generate fs hook rnd mt self = (Inl (IndexError ''pop from empty list''), self)"
  using assms by (simp add: generate_def generate_rotate_disabled generate_choose_replay)

lemma generate_replay_step:
  assumes "is_replay self" and "rotate_period self = 0" and "templates self \<noteq> []"
    and "generate fs hook rnd mt self = (r, self')"
  shows "templates self' = butlast (templates self)
         \<and> get_active_file_name self' = Some (last (templates self))
         \<and> is_replay self' \<and> rotate_period self' = 0
         \<and> (hook_succeeds hook \<longrightarrow> (\<exists>t. r = Inr t))"
proof -
  let ?s2 = "self\<lparr> templates := butlast (templates self),
                     active_template :=
                       Some \<lparr> data = None, data_hash = None,
                              extension = (if CHR ''.'' \<in> set (last (templates self))
                                           then Some (lstrip_dot (snd (splitext (last (templates self)))))
                                           else None),
                              file_name = last (templates self) \<rparr> \<rparr>"
  obtain t0 rp where tst: "generate_test ?s2 = Inr (t0, rp)"
    using generate_test_never_raises [of ?s2] by (cases "generate_test ?s2") auto
  obtain rh fz where hk: "hook (fuzzer ?s2) t0 rp mt = (rh, fz)"
    by (cases "hook (fuzzer ?s2) t0 rp mt")
  have g: "generate fs hook rnd mt self =
             (case rh of Inl e \<Rightarrow> (Inl e, ?s2\<lparr> fuzzer := fz \<rparr>)
                       | Inr t' \<Rightarrow> (Inr t', ?s2\<lparr> fuzzer := fz, generated := generated ?s2 + 1 \<rparr>))"
    using assms(1,2,3) tst hk
    by (simp add: generate_def generate_rotate_disabled generate_choose_replay split: sum.splits)
  have "hook_succeeds hook \<longrightarrow> (\<exists>t. rh = Inr t)"
    using hk unfolding hook_succeeds_def by (metis fst_conv)
  with g assms(1,2,4) show ?thesis
    by (cases rh) (auto simp: get_active_file_name_def)
qed

lemma replay_trace:
  assumes "is_replay self" and "rotate_period self = 0"
    and "k < length (templates self)" and "k < length calls"
  shows "get_active_file_name (snd (generate_calls hook calls self ! k))
           = Some (rev (templates self) ! k)
         \<and> (hook_succeeds hook \<longrightarrow> (\<exists>t. fst (generate_calls hook calls self ! k) = Inr t))"
  using assms
proof (induction calls arbitrary: self k)
  case Nil
  then show ?case by simp
next
  case (Cons c calls)
  obtain fs rnd mt where c: "c = (fs, rnd, mt)" by (cases c)
  obtain r s where g: "generate fs hook rnd mt self = (r, s)" by (cases "generate fs hook rnd mt self")
  from Cons.prems(3) have ne: "templates self \<noteq> []" by auto
  from generate_replay_step [OF Cons.prems(1,2) ne g]
  have s: "templates s = butlast (templates self)"
    "get_active_file_name s = Some (last (templates self))"
    "is_replay s" "rotate_period s = 0" "hook_succeeds hook \<longrightarrow> (\<exists>t. r = Inr t)"
    by simp_all
  from ne have rv: "rev (templates self) = last (templates self) # rev (butlast (templates self))"
    by (metis append_butlast_last_id rev.simps(2) rev_rev_ident rev_swap)
  have r0: "rev (templates self) ! 0 = last (templates self)"
    by (subst rv) simp
  have rS: "rev (templates self) ! Suc j = rev (butlast (templates self)) ! j" for j
    by (subst rv) simp
  show ?case
  proof (cases k)
    case 0
    with s r0 show ?thesis by (simp add: c g)
  next
    case (Suc j)
    with Cons.prems(3,4) s(1) have "j < length (templates s)" "j < length calls" by simp_all
    from Cons.IH [OF s(3,4) this] Suc rS s(1) show ?thesis by (simp add: c g)
  qed
qed

lemma replay_trace_end:
  assumes "is_replay self" and "rotate_period self = 0"
    and "length (templates self) < length calls"
  shows "fst (generate_calls hook calls self ! length (templates self))
           = Inl (IndexError ''pop from empty list'')"
  using assms
proof (induction calls arbitrary: self)
  case Nil
  then show ?case by simp
next
  case (Cons c calls)
  obtain fs rnd mt where c: "c = (fs, rnd, mt)" by (cases c)
  show ?case
  proof (cases "templates self = []")
    case True
    from generate_replay_empty [OF Cons.prems(1,2) True] True show ?thesis by (simp add: c)
  next
    case False
    obtain r s where g: "generate fs hook rnd mt self = (r, s)"
      by (cases "generate fs hook rnd mt self")
    from generate_replay_step [OF Cons.prems(1,2) False g]
    have s: "templates s = butlast (templates self)" "is_replay s" "rotate_period s = 0"
      by simp_all
    from False s(1) have len: "length (templates self) = Suc (length (templates s))"
      by (simp add: Suc_pred')
    with Cons.prems(3) have "length (templates s) < length calls" by simp
    from Cons.IH [OF s(2,3) this] len show ?thesis by (simp add: c g)
  qed
qed

text \<open>
  Claim C1. Let the constructor build a manager in replay mode, with \<open>N\<close> templates in
  its pool, and let a caller make \<open>N + 1\<close> calls of \<^verbatim>\<open>generate\<close>. After the call
  number \<open>i\<close> (counted from 0) the active template is the element number \<open>i\<close> of the
  template paths in ascending order (whether or not the hook raised in it), and when the
  hook never raises, each of these \<open>N\<close> calls returns a test case. The last call raises
  the \<^verbatim>\<open>IndexError\<close> of \<^verbatim>\<open>pop\<close> on the empty pool, which is what the
  specification calls the error of the exhausted replay. For a corpus directory the
  paths in ascending order are the sorted candidates of the scan.
\<close>

theorem replay_order:
  assumes "CorpusManager_init fs initf k path exts aggr True rot = Inr m"
    and "length calls = length (templates m) + 1"
  shows "(\<forall>i < length (templates m).
            get_active_file_name (snd (generate_calls hook calls m ! i))
              = Some (sort (templates m) ! i)
            \<and> (hook_succeeds hook \<longrightarrow> (\<exists>t. fst (generate_calls hook calls m ! i) = Inr t)))
         \<and> fst (generate_calls hook calls m ! length (templates m))
             = Inl (IndexError ''pop from empty list'')
         \<and> (isdir fs path \<longrightarrow>
               sort (templates m) = sort (walk_candidates fs exts (walk fs path)))"
proof -
  from CorpusManager_init_fields [OF assms(1)] have m: "is_replay m" "rotate_period m = 0"
    by simp_all
  have srt: "rev (templates m) = sort (templates m)"
    using assms(1) by (rule CorpusManager_init_replay_sorted)
  have 1: "\<forall>i < length (templates m).
            get_active_file_name (snd (generate_calls hook calls m ! i))
              = Some (sort (templates m) ! i)
            \<and> (hook_succeeds hook \<longrightarrow> (\<exists>t. fst (generate_calls hook calls m ! i) = Inr t))"
  proof (intro allI impI)
    fix i assume i: "i < length (templates m)"
    with assms(2) have "i < length calls" by simp
    from replay_trace [OF m i this, of hook] srt
    show "get_active_file_name (snd (generate_calls hook calls m ! i))
              = Some (sort (templates m) ! i)
            \<and> (hook_succeeds hook \<longrightarrow> (\<exists>t. fst (generate_calls hook calls m ! i) = Inr t))"
      by simp
  qed
  have 2: "fst (generate_calls hook calls m ! length (templates m))
             = Inl (IndexError ''pop from empty list'')"
    using assms(2) by (intro replay_trace_end [OF m]) simp
  have 3: "isdir fs path \<longrightarrow>
               sort (templates m) = sort (walk_candidates fs exts (walk fs path))"
  proof
    assume "isdir fs path"
    from CorpusManager_init_isdir [OF assms(1) this]
    have "templates m = rev (sort (walk_candidates fs exts (walk fs path)))"
      by (simp add: sort_reverse_def)
    then show "sort (templates m) = sort (walk_candidates fs exts (walk fs path))"
      by (simp add: properties_for_sort)
  qed
  from 1 2 3 show ?thesis by blast
qed


text \<open>
  The example directory in replay mode: \<^verbatim>\<open>a.html\<close>, \<^verbatim>\<open>b.txt\<close>, \<^verbatim>\<open>c.HTML\<close>, and
  then the error.
\<close>

lemma hook_succeeds_example: "hook_succeeds example_generate"
  by (simp add: hook_succeeds_def example_generate_def add_testfile_Inr)

lemma sort_replay_manager:
  "sort (templates replay_manager) = [''/c/a.html'', ''/c/b.txt'', ''/c/c.HTML'']"
  by code_simp

theorem replay_order_witness:
  "CorpusManager_init example_fs (base_init_fuzzer :: (unit, unit) init_hook) None ''/c'' None ()
     True 10 = Inr replay_manager
   \<and> length four_calls = length (templates replay_manager) + 1
   \<and> hook_succeeds example_generate
   \<and> get_active_file_name (snd (generate_calls example_generate four_calls replay_manager ! 0))
        = Some ''/c/a.html''
   \<and> get_active_file_name (snd (generate_calls example_generate four_calls replay_manager ! 1))
        = Some ''/c/b.txt''
   \<and> get_active_file_name (snd (generate_calls example_generate four_calls replay_manager ! 2))
        = Some ''/c/c.HTML''
   \<and> (\<exists>t. fst (generate_calls example_generate four_calls replay_manager ! 0) = Inr t)
   \<and> (\<exists>t. fst (generate_calls example_generate four_calls replay_manager ! 1) = Inr t)
   \<and> (\<exists>t. fst (generate_calls example_generate four_calls replay_manager ! 2) = Inr t)
   \<and> fst (generate_calls example_generate four_calls replay_manager ! 3)
        = Inl (IndexError ''pop from empty list'')"
proof -
  have len: "length four_calls = length (templates replay_manager) + 1"
    by (simp add: four_calls_def replay_manager_def)
  have n: "length (templates replay_manager) = 3"
    by (simp add: replay_manager_def)
  note ord = replay_order [OF replay_manager_init len, of example_generate]
  from ord have all: "\<forall>i < 3.
      get_active_file_name (snd (generate_calls example_generate four_calls replay_manager ! i))
        = Some ([''/c/a.html'', ''/c/b.txt'', ''/c/c.HTML''] ! i)
      \<and> (\<exists>t. fst (generate_calls example_generate four_calls replay_manager ! i) = Inr t)"
    by (simp add: n sort_replay_manager hook_succeeds_example)
  from all have "get_active_file_name
        (snd (generate_calls example_generate four_calls replay_manager ! 0)) = Some ''/c/a.html''"
    "\<exists>t. fst (generate_calls example_generate four_calls replay_manager ! 0) = Inr t"
    by auto
  moreover from all have "get_active_file_name
        (snd (generate_calls example_generate four_calls replay_manager ! 1)) = Some ''/c/b.txt''"
    "\<exists>t. fst (generate_calls example_generate four_calls replay_manager ! 1) = Inr t"
    by auto
  moreover from all have "get_active_file_name
        (snd (generate_calls example_generate four_calls replay_manager ! 2)) = Some ''/c/c.HTML''"
    "\<exists>t. fst (generate_calls example_generate four_calls replay_manager ! 2) = Inr t"
    by auto
  moreover from ord have "fst (generate_calls example_generate four_calls replay_manager ! 3)
        = Inl (IndexError ''pop from empty list'')"
    by (simp add: n)
  ultimately show ?thesis
    using replay_manager_init len hook_succeeds_example by simp
qed

subsection \<open>Template: the lazy load and its cache\<close>

lemma Template_init_fresh:
  "Template_init (Some p) = Inr t \<Longrightarrow>
     data t = None \<and> data_hash t = None \<and> file_name t = p \<and> cache_ok sha1 t"
  by (auto simp: Template_init_def cache_ok_def)

lemma load_and_hash_data_cases:
  assumes "load_and_hash_data sha1 fs t = (r, t', rd)"
  shows "(\<exists>e. r = Inl e \<and> t' = t \<and> rd = [])
       \<or> (\<exists>d. r = Inr () \<and> isfile fs (file_name t) \<and> read_file fs (file_name t) = Inr d
              \<and> t' = t\<lparr> data := Some d, data_hash := Some (sha1 d) \<rparr> \<and> rd = [file_name t])"
  using assms
  by (auto simp: load_and_hash_data_def split: if_splits sum.splits)

lemma template_call_loaded:
  assumes "cache_ok sha1 t" and "data t = Some d"
  shows "template_call sha1 c fs t = (Inr (Some (cached_answer sha1 c d)), t, [])"
  using assms
  by (cases c) (simp_all add: template_call_def get_data_def get_hash_def cache_ok_def)

lemma template_call_unloaded:
  assumes "cache_ok sha1 t" and "data t = None" and "template_call sha1 c fs t = (r, t', rd)"
  shows "(\<exists>e. r = Inl e \<and> t' = t \<and> rd = [])
       \<or> (\<exists>d. r = Inr (Some (cached_answer sha1 c d)) \<and> isfile fs (file_name t)
              \<and> read_file fs (file_name t) = Inr d
              \<and> t' = t\<lparr> data := Some d, data_hash := Some (sha1 d) \<rparr> \<and> rd = [file_name t])"
proof -
  from assms(1,2) have h: "data_hash t = None" by (simp add: cache_ok_def)
  obtain r0 t0 rd0 where l: "load_and_hash_data sha1 fs t = (r0, t0, rd0)"
    by (cases "load_and_hash_data sha1 fs t")
  from load_and_hash_data_cases [OF l] assms(2,3) h l show ?thesis
    by (cases c) (auto simp: template_call_def get_data_def get_hash_def)
qed

lemma template_calls_loaded:
  assumes "cache_ok sha1 t" and "data t = Some d"
  shows "template_calls sha1 cs t
           = (map (\<lambda>(c, fs). (c, Inr (Some (cached_answer sha1 c d)))) cs, t, [])"
proof (induction cs)
  case Nil
  show ?case by simp
next
  case (Cons a cs)
  obtain c fs where a: "a = (c, fs)" by (cases a)
  from Cons.IH template_call_loaded [OF assms, of c fs] show ?case by (simp add: a)
qed

lemma template_calls_unloaded:
  assumes "cache_ok sha1 t" and "data t = None" and "template_calls sha1 cs t = (rs, t', rds)"
  shows "file_name t' = file_name t \<and> cache_ok sha1 t' \<and> length rds \<le> 1
         \<and> set rds \<subseteq> {file_name t}
         \<and> (rds = [] \<longrightarrow> t' = t)
         \<and> (\<forall>c v. (c, Inr v) \<in> set rs \<longrightarrow>
               (\<exists>d. data t' = Some d \<and> v = Some (cached_answer sha1 c d)))"
  using assms
proof (induction cs arbitrary: rs rds t')
  case Nil
  then show ?case by simp
next
  case (Cons a cs)
  obtain c fs where a: "a = (c, fs)" by (cases a)
  obtain r t1 rd where st: "template_call sha1 c fs t = (r, t1, rd)"
    by (cases "template_call sha1 c fs t")
  obtain rs1 t2 rds1 where rest: "template_calls sha1 cs t1 = (rs1, t2, rds1)"
    by (cases "template_calls sha1 cs t1")
  from Cons.prems(3) st rest have res: "rs = (c, r) # rs1" "t' = t2" "rds = rd @ rds1"
    by (simp_all add: a)
  from template_call_unloaded [OF Cons.prems(1,2) st]
  show ?case
  proof (elim disjE exE conjE)
    fix e assume e: "r = Inl e" "t1 = t" "rd = []"
    from rest e have "template_calls sha1 cs t = (rs1, t2, rds1)" by simp
    from Cons.IH [OF Cons.prems(1,2) this] res e show ?thesis by auto
  next
    fix d
    assume d: "r = Inr (Some (cached_answer sha1 c d))"
      "t1 = t\<lparr> data := Some d, data_hash := Some (sha1 d) \<rparr>" "rd = [file_name t]"
    then have ok: "cache_ok sha1 t1" and dt: "data t1 = Some d" by (simp_all add: cache_ok_def)
    from template_calls_loaded [OF ok dt, of cs] rest
    have "t2 = t1" "rds1 = []"
      "rs1 = map (\<lambda>(c, fs). (c, Inr (Some (cached_answer sha1 c d)))) cs"
      by simp_all
    with res d dt ok show ?thesis by auto
  qed
qed

lemma get_hash_fresh:
  assumes "Template_init (Some p) = Inr t" and "isfile fs p" and "read_file fs p = Inr d"
  shows "fst (get_hash sha1 fs t) = Inr (Some (sha1 d))"
  using assms
  by (auto simp: Template_init_def get_hash_def load_and_hash_data_def)

text \<open>
  Claim C6. A template that its constructor has just built holds neither content nor
  digest: nothing was read. Over any sequence of calls of \<^verbatim>\<open>get_data\<close> and
  \<^verbatim>\<open>get_hash\<close> on it, whatever the file system is at each call, at most one read
  happens, and it reads the file of the template. Every value a call returns is the
  cached content or its digest, so all digests returned are the same, also when the file
  has changed or gone since. The digest is a function of the bytes alone: two fresh
  objects over files of the same bytes, under any paths and file systems, return the same
  digest.
\<close>

theorem template_lazy_load_once:
  assumes "Template_init (Some p) = Inr t0" and "template_calls sha1 cs t0 = (rs, t', rds)"
  shows "data t0 = None \<and> data_hash t0 = None
         \<and> length rds \<le> 1 \<and> set rds \<subseteq> {p}
         \<and> (\<forall>c v. (c, Inr v) \<in> set rs \<longrightarrow>
               (\<exists>d. data t' = Some d \<and> v = Some (cached_answer sha1 c d)))
         \<and> (\<forall>v w. (GetHash, Inr v) \<in> set rs \<and> (GetHash, Inr w) \<in> set rs \<longrightarrow> v = w)
         \<and> (Template_init (Some p2) = Inr t2
              \<and> isfile fs1 p \<and> read_file fs1 p = Inr d
              \<and> isfile fs2 p2 \<and> read_file fs2 p2 = Inr d
            \<longrightarrow> fst (get_hash sha1 fs1 t0) = Inr (Some (sha1 d))
                \<and> fst (get_hash sha1 fs2 t2) = fst (get_hash sha1 fs1 t0))"
proof -
  from Template_init_fresh [OF assms(1), of sha1]
  have f: "data t0 = None" "data_hash t0 = None" "file_name t0 = p" "cache_ok sha1 t0"
    by simp_all
  from template_calls_unloaded [OF f(4) f(1) assms(2)] f(3)
  have c: "length rds \<le> 1" "set rds \<subseteq> {p}"
    "\<forall>c v. (c, Inr v) \<in> set rs \<longrightarrow>
               (\<exists>d. data t' = Some d \<and> v = Some (cached_answer sha1 c d))"
    by simp_all
  have same: "\<forall>v w. (GetHash, Inr v) \<in> set rs \<and> (GetHash, Inr w) \<in> set rs \<longrightarrow> v = w"
  proof (intro allI impI, elim conjE)
    fix v w assume "(GetHash, Inr v) \<in> set rs" "(GetHash, Inr w) \<in> set rs"
    with c(3) obtain d1 d2 where "data t' = Some d1" "v = Some (cached_answer sha1 GetHash d1)"
      "data t' = Some d2" "w = Some (cached_answer sha1 GetHash d2)"
      by blast
    then show "v = w" by simp
  qed
  have det: "Template_init (Some p2) = Inr t2
              \<and> isfile fs1 p \<and> read_file fs1 p = Inr d
              \<and> isfile fs2 p2 \<and> read_file fs2 p2 = Inr d
            \<longrightarrow> fst (get_hash sha1 fs1 t0) = Inr (Some (sha1 d))
                \<and> fst (get_hash sha1 fs2 t2) = fst (get_hash sha1 fs1 t0)"
    using get_hash_fresh [OF assms(1), of fs1 d sha1] get_hash_fresh [of p2 t2 fs2 d sha1]
    by simp
  from f c same det show ?thesis by blast
qed


text \<open>
  The four calls on the template of \<^verbatim>\<open>a.html\<close>: an error, then one read, then the
  cached digest twice; and the same digest from another object over the same bytes.
\<close>

lemma a_template_init: "Template_init (Some ''/c/a.html'') = Inr a_template"
  by code_simp

lemma a_template_calls_result:
  "template_calls example_digest a_template_calls a_template
     = ([(GetHash, Inl (IOError ''File does not exist: /c/a.html'')),
         (GetData, Inr (Some ''0123456789'')),
         (GetHash, Inr (Some ''10'')),
         (GetHash, Inr (Some ''10''))],
        a_template\<lparr> data := Some ''0123456789'', data_hash := Some ''10'' \<rparr>,
        [''/c/a.html''])"
  by code_simp

theorem template_lazy_load_once_witness:
  "Template_init (Some ''/c/a.html'') = Inr a_template
   \<and> data a_template = None \<and> data_hash a_template = None
   \<and> template_calls example_digest a_template_calls a_template
       = ([(GetHash, Inl (IOError ''File does not exist: /c/a.html'')),
           (GetData, Inr (Some ''0123456789'')),
           (GetHash, Inr (Some ''10'')),
           (GetHash, Inr (Some ''10''))],
          a_template\<lparr> data := Some ''0123456789'', data_hash := Some ''10'' \<rparr>,
          [''/c/a.html''])
   \<and> length [''/c/a.html''] \<le> (1 :: nat)
   \<and> (\<exists>t2. Template_init (Some ''/c/seed.html'') = Inr t2
         \<and> fst (get_hash example_digest example_fs a_template) = Inr (Some ''10'')
         \<and> fst (get_hash example_digest single_fs t2)
             = fst (get_hash example_digest example_fs a_template))"
proof -
  obtain t2 where t2: "Template_init (Some ''/c/seed.html'') = Inr t2"
    by (simp add: Template_init_def)
  have d: "example_digest ''0123456789'' = ''10''" by code_simp
  have fs: "isfile example_fs ''/c/a.html''" "read_file example_fs ''/c/a.html'' = Inr ''0123456789''"
    "isfile single_fs ''/c/seed.html''" "read_file single_fs ''/c/seed.html'' = Inr ''0123456789''"
    by (simp_all add: example_fs_def example_files_def single_fs_def)
  from template_lazy_load_once [OF a_template_init a_template_calls_result,
      of "''/c/seed.html''" t2 example_fs "''0123456789''" single_fs]
    t2 fs d a_template_init a_template_calls_result
  show ?thesis by simp
qed

end
